theory Spec2Isabelle
  imports Complex_Main "HOL-Library.Log_Nat"
begin

section \<open>The WebSocket hub (package websocket)\<close>

subsection \<open>Buffered Go channels\<close>

text \<open>
  A buffered channel of byte slices is its queue (oldest element first), its capacity and
  whether it has been closed. A send on a closed channel and a second close both panic;
  the panics are values of the model.
\<close>

type_synonym bytes = string

record chan =
  buf :: "bytes list"
  cap :: nat
  closed :: bool

datatype panic = SendOnClosedChannel | CloseOfClosedChannel

definition make_chan :: "nat \<Rightarrow> chan" where
  "make_chan n = \<lparr>buf = [], cap = n, closed = False\<rparr>"

text \<open>
  The non-blocking send \<^verbatim>\<open>select { case ch <- m: default: }\<close>: \<open>Some ch'\<close> when the message was
  queued, \<open>None\<close> when the default branch ran because the buffer is full.
\<close>

definition try_send :: "chan \<Rightarrow> bytes \<Rightarrow> panic + chan option" where
  "try_send ch m =
     (if closed ch then Inl SendOnClosedChannel
      else if length (buf ch) < cap ch then Inr (Some (ch\<lparr>buf := buf ch @ [m]\<rparr>))
      else Inr None)"

definition close_chan :: "chan \<Rightarrow> panic + chan" where
  "close_chan ch = (if closed ch then Inl CloseOfClosedChannel else Inr (ch\<lparr>closed := True\<rparr>))"

subsection \<open>Clients, messages and the hub\<close>

text \<open>
  A \<^verbatim>\<open>*Client\<close> is an address; the store maps each address to the client's fields. Of the
  fields only \<^verbatim>\<open>Send\<close> and \<^verbatim>\<open>FormID\<close> are state of the hub protocol (\<^verbatim>\<open>Conn\<close> is the transport,
  \<^verbatim>\<open>Hub\<close> the back pointer). \<^verbatim>\<open>Hub.Clients\<close> is the Go map \<^verbatim>\<open>map[*Client]bool\<close>.
\<close>

record Client =
  Send :: chan
  FormID :: string

datatype jvalue =
    JNull
  | JBool bool
  | JNum int
  | JStr string
  | JArr "jvalue list"
  | JObj "(string \<times> jvalue) list"

record Message =
  msg_Type :: string
  msg_FormID :: string
  msg_Data :: jvalue
  msg_EventID :: string

record world =
  Clients :: "nat \<rightharpoonup> bool"
  heap :: "nat \<Rightarrow> Client"

text \<open>\<^verbatim>\<open>json.Marshal\<close> is a parameter of the model: \<open>None\<close> is its error return.\<close>

type_synonym marshal = "Message \<Rightarrow> bytes option"

definition NewHub :: "(nat \<Rightarrow> Client) \<Rightarrow> world" where
  "NewHub h = \<lparr>Clients = Map.empty, heap = h\<rparr>"

text \<open>\<^verbatim>\<open>case client := <-h.Register\<close> of \<^verbatim>\<open>Hub.Run\<close>.\<close>

definition hub_Register :: "nat \<Rightarrow> world \<Rightarrow> world" where
  "hub_Register c s = s\<lparr>Clients := (Clients s)(c \<mapsto> True)\<rparr>"

text \<open>\<^verbatim>\<open>case client := <-h.Unregister\<close> of \<^verbatim>\<open>Hub.Run\<close>: delete, then close.\<close>

definition hub_Unregister :: "nat \<Rightarrow> world \<Rightarrow> panic + world" where
  "hub_Unregister c s =
     (if Clients s c \<noteq> None then
        (let s1 = s\<lparr>Clients := (Clients s)(c := None)\<rparr> in
         case close_chan (Send (heap s1 c)) of
           Inl p \<Rightarrow> Inl p
         | Inr ch \<Rightarrow> Inr (s1\<lparr>heap := (heap s1)(c := (heap s1 c)\<lparr>Send := ch\<rparr>)\<rparr>))
      else Inr s)"

text \<open>
  The body shared by both fan-out loops:
  \<^verbatim>\<open>select { case client.Send <- message: default: close(client.Send); delete(h.Clients, client) }\<close>.
\<close>

definition send_or_drop :: "bytes \<Rightarrow> nat \<Rightarrow> world \<Rightarrow> panic + world" where
  "send_or_drop m c s =
     (case try_send (Send (heap s c)) m of
        Inl p \<Rightarrow> Inl p
      | Inr (Some ch) \<Rightarrow> Inr (s\<lparr>heap := (heap s)(c := (heap s c)\<lparr>Send := ch\<rparr>)\<rparr>)
      | Inr None \<Rightarrow>
          (case close_chan (Send (heap s c)) of
             Inl p \<Rightarrow> Inl p
           | Inr ch \<Rightarrow>
               Inr (s\<lparr>heap := (heap s)(c := (heap s c)\<lparr>Send := ch\<rparr>),
                      Clients := (Clients s)(c := None)\<rparr>)))"

text \<open>
  \<^verbatim>\<open>for client := range h.Clients\<close>. Go leaves the iteration order open, so the order is an
  argument: a list of the keys of the map, each once. A key deleted before it is reached is
  not produced. A panic in the body ends the loop.
\<close>

fun range_Clients :: "(nat \<Rightarrow> world \<Rightarrow> panic + world) \<Rightarrow> nat list \<Rightarrow> world \<Rightarrow> panic + world" where
  "range_Clients body [] s = Inr s"
| "range_Clients body (c # cs) s =
     (if Clients s c = None then range_Clients body cs s
      else case body c s of
             Inl p \<Rightarrow> Inl p
           | Inr s' \<Rightarrow> range_Clients body cs s')"

definition range_order :: "world \<Rightarrow> nat list \<Rightarrow> bool" where
  "range_order s order \<longleftrightarrow> distinct order \<and> set order = dom (Clients s)"

text \<open>\<^verbatim>\<open>case message := <-h.Broadcast\<close> of \<^verbatim>\<open>Hub.Run\<close>.\<close>

definition hub_Broadcast :: "bytes \<Rightarrow> nat list \<Rightarrow> world \<Rightarrow> panic + world" where
  "hub_Broadcast message order s = range_Clients (send_or_drop message) order s"

text \<open>
  One round of \<^verbatim>\<open>Hub.Run\<close>'s loop: the \<^verbatim>\<open>select\<close> over the hub's three channels. A request
  is what a goroutine sends on one of them.
\<close>

datatype hub_request = Register nat | Unregister nat | Broadcast bytes

definition Run_step :: "hub_request \<Rightarrow> nat list \<Rightarrow> world \<Rightarrow> panic + world" where
  "Run_step req order s =
     (case req of
        Register client \<Rightarrow> Inr (hub_Register client s)
      | Unregister client \<Rightarrow> hub_Unregister client s
      | Broadcast message \<Rightarrow> hub_Broadcast message order s)"

definition BroadcastToForm ::
  "marshal \<Rightarrow> string \<Rightarrow> string \<Rightarrow> jvalue \<Rightarrow> nat list \<Rightarrow> world \<Rightarrow> panic + world" where
  "BroadcastToForm js formID messageType data order s =
     (case js \<lparr>msg_Type = messageType, msg_FormID = formID, msg_Data = data, msg_EventID = []\<rparr> of
        None \<Rightarrow> Inr s
      | Some jsonData \<Rightarrow>
          range_Clients
            (\<lambda>client s. if FormID (heap s client) = [] \<or> FormID (heap s client) = formID
                         then send_or_drop jsonData client s else Inr s)
            order s)"

text \<open>
  \<^verbatim>\<open>BroadcastGeneral\<close> marshals and hands the bytes to the hub's \<^verbatim>\<open>Broadcast\<close> channel, where
  \<^verbatim>\<open>Hub.Run\<close> fans them out.
\<close>

definition BroadcastGeneral ::
  "marshal \<Rightarrow> string \<Rightarrow> jvalue \<Rightarrow> nat list \<Rightarrow> world \<Rightarrow> panic + world" where
  "BroadcastGeneral js messageType data order s =
     (case js \<lparr>msg_Type = messageType, msg_FormID = [], msg_Data = data, msg_EventID = []\<rparr> of
        None \<Rightarrow> Inr s
      | Some jsonData \<Rightarrow> hub_Broadcast jsonData order s)"

text \<open>
  \<^verbatim>\<open>HandleWebSocket\<close> up to the start of the pumps: a new client at the fresh address \<open>c\<close>
  with a queue of 256, registered, and greeted if the queue takes the greeting.
\<close>

definition HandleWebSocket :: "marshal \<Rightarrow> jvalue \<Rightarrow> nat \<Rightarrow> world \<Rightarrow> panic + world" where
  "HandleWebSocket js greeting_data c s =
     (let s1 = s\<lparr>heap := (heap s)(c := \<lparr>Send = make_chan 256, FormID = []\<rparr>)\<rparr>;
          s2 = hub_Register c s1
      in case js \<lparr>msg_Type = ''ws_greeting'', msg_FormID = [], msg_Data = greeting_data,
                  msg_EventID = []\<rparr> of
           None \<Rightarrow> Inr s2
         | Some b \<Rightarrow>
             (case try_send (Send (heap s2 c)) b of
                Inl p \<Rightarrow> Inl p
              | Inr (Some ch) \<Rightarrow> Inr (s2\<lparr>heap := (heap s2)(c := (heap s2 c)\<lparr>Send := ch\<rparr>)\<rparr>)
              | Inr None \<Rightarrow> Inr s2))"

text \<open>
  One round of \<^verbatim>\<open>readPump\<close>'s loop for a decoded text frame: the \<^verbatim>\<open>switch msg.Type\<close>.
\<close>

definition readPump_message :: "marshal \<Rightarrow> nat \<Rightarrow> Message \<Rightarrow> world \<Rightarrow> panic + world" where
  "readPump_message js c msg s =
     (if msg_Type msg = ''subscribe_form'' then
        (case msg_Data msg of
           JStr formIDStr \<Rightarrow> Inr (s\<lparr>heap := (heap s)(c := (heap s c)\<lparr>FormID := formIDStr\<rparr>)\<rparr>)
         | _ \<Rightarrow> Inr s)
      else if msg_Type msg = ''ping'' then
        (case js \<lparr>msg_Type = ''pong'', msg_FormID = [], msg_Data = JStr ''pong'',
                  msg_EventID = []\<rparr> of
           None \<Rightarrow> Inr s
         | Some b \<Rightarrow>
             (case try_send (Send (heap s c)) b of
                Inl p \<Rightarrow> Inl p
              | Inr (Some ch) \<Rightarrow> Inr (s\<lparr>heap := (heap s)(c := (heap s c)\<lparr>Send := ch\<rparr>)\<rparr>)
              | Inr None \<Rightarrow> Inr s))
      else Inr s)"

text \<open>
  \<^verbatim>\<open>message, ok := <-c.Send\<close> of \<^verbatim>\<open>writePump\<close>: the oldest queued message, or \<open>ok = false\<close> once the
  queue is closed and drained; \<open>None\<close> when the receive would block.
\<close>

definition chan_recv :: "chan \<Rightarrow> (bytes option \<times> chan) option" where
  "chan_recv ch =
     (case buf ch of
        m # ms \<Rightarrow> Some (Some m, ch\<lparr>buf := ms\<rparr>)
      | [] \<Rightarrow> if closed ch then Some (None, ch) else None)"

definition writePump_recv :: "nat \<Rightarrow> world \<Rightarrow> world" where
  "writePump_recv c s =
     (case chan_recv (Send (heap s c)) of
        None \<Rightarrow> s
      | Some (_, ch) \<Rightarrow> s\<lparr>heap := (heap s)(c := (heap s c)\<lparr>Send := ch\<rparr>)\<rparr>)"

text \<open>
  The hub closes a queue only together with removing its client, so a registered client's
  queue is open. The fan-out loops rely on it: a send on a closed channel panics.
\<close>

definition hub_inv :: "world \<Rightarrow> bool" where
  "hub_inv s \<longleftrightarrow> (\<forall>c. Clients s c \<noteq> None \<longrightarrow> \<not> closed (Send (heap s c)))"

definition full :: "chan \<Rightarrow> bool" where
  "full ch \<longleftrightarrow> \<not> length (buf ch) < cap ch"

text \<open>
  The states the hub can be in: every operation is taken as one atomic step, in any order.
\<close>

inductive reachable :: "world \<Rightarrow> bool" where
  init: "reachable (NewHub h)"
| connect: "reachable s \<Longrightarrow> HandleWebSocket js g c s = Inr s' \<Longrightarrow> reachable s'"
| unregister: "reachable s \<Longrightarrow> hub_Unregister c s = Inr s' \<Longrightarrow> reachable s'"
| broadcast: "reachable s \<Longrightarrow> hub_Broadcast m order s = Inr s' \<Longrightarrow> reachable s'"
| to_form: "reachable s \<Longrightarrow> BroadcastToForm js formID mt d order s = Inr s' \<Longrightarrow> reachable s'"
| frame: "reachable s \<Longrightarrow> readPump_message js c msg s = Inr s' \<Longrightarrow> reachable s'"
| drain: "reachable s \<Longrightarrow> reachable (writePump_recv c s)"

text \<open>
  A hub with four clients: 10 never subscribed, 11 subscribed to form A with a full queue,
  12 subscribed to form B, 13 subscribed to form A with room in its queue.
\<close>

definition example_marshal :: marshal where
  "example_marshal m = Some (msg_Type m @ ''|'' @ msg_FormID m)"

definition example_heap :: "nat \<Rightarrow> Client" where
  "example_heap c =
     (if c = 10 then \<lparr>Send = make_chan 256, FormID = []\<rparr>
      else if c = 11 then \<lparr>Send = \<lparr>buf = replicate 256 ''x'', cap = 256, closed = False\<rparr>, FormID = ''A''\<rparr>
      else if c = 12 then \<lparr>Send = make_chan 256, FormID = ''B''\<rparr>
      else \<lparr>Send = make_chan 256, FormID = ''A''\<rparr>)"

definition example_hub :: world where
  "example_hub = \<lparr>Clients = [10 \<mapsto> True, 11 \<mapsto> True, 12 \<mapsto> True, 13 \<mapsto> True], heap = example_heap\<rparr>"

text \<open>
  What a call left of one client: its queue, whether the queue is closed, and whether the
  client is registered; \<open>None\<close> when the call panicked.
\<close>

definition queue_after :: "nat \<Rightarrow> panic + world \<Rightarrow> bytes list option" where
  "queue_after c r = (case r of Inl p \<Rightarrow> None | Inr s \<Rightarrow> Some (buf (Send (heap s c))))"

definition closed_after :: "nat \<Rightarrow> panic + world \<Rightarrow> bool option" where
  "closed_after c r = (case r of Inl p \<Rightarrow> None | Inr s \<Rightarrow> Some (closed (Send (heap s c))))"

definition registered_after :: "nat \<Rightarrow> panic + world \<Rightarrow> bool option" where
  "registered_after c r = (case r of Inl p \<Rightarrow> None | Inr s \<Rightarrow> Some (Clients s c \<noteq> None))"

text \<open>A decoded \<^verbatim>\<open>{"type": "ping"}\<close> frame.\<close>

definition ping_frame :: Message where
  "ping_frame = \<lparr>msg_Type = ''ping'', msg_FormID = [], msg_Data = JNull, msg_EventID = []\<rparr>"

section \<open>The browser client (class WebSocketClient)\<close>

text \<open>
  The fields of the class that the connection logic reads or writes. The socket is known by
  its \<^verbatim>\<open>readyState\<close>; \<open>reconnectTimers\<close> counts the pending \<^verbatim>\<open>setTimeout\<close> callbacks of
  \<^verbatim>\<open>handleReconnect\<close>, and \<open>emitted\<close> records the events passed to \<^verbatim>\<open>emit\<close> (the listeners are
  the caller's code). Whether \<^verbatim>\<open>new WebSocket\<close> throws is an argument of \<open>connect\<close>.
\<close>

datatype ready_state = CONNECTING | OPEN | CLOSING | CLOSED

record WebSocketClient =
  socket :: "ready_state option"
  reconnectInterval :: int
  maxReconnectAttempts :: int
  reconnectAttempts :: int
  isConnected :: bool
  connectionError :: "string option"
  pingInterval :: bool
  reconnectTimers :: nat
  emitted :: "string list"

definition wsClient :: WebSocketClient where
  "wsClient = \<lparr>socket = None, reconnectInterval = 5000, maxReconnectAttempts = 5,
     reconnectAttempts = 0, isConnected = False, connectionError = None,
     pingInterval = False, reconnectTimers = 0, emitted = []\<rparr>"

definition emit :: "string \<Rightarrow> WebSocketClient \<Rightarrow> WebSocketClient" where
  "emit event w = w\<lparr>emitted := emitted w @ [event]\<rparr>"

definition connect :: "bool \<Rightarrow> WebSocketClient \<Rightarrow> WebSocketClient" where
  "connect throws w =
     (if socket w = Some OPEN then w
      else if throws then w\<lparr>connectionError := Some ''Failed to create connection''\<rparr>
      else w\<lparr>socket := Some CONNECTING\<rparr>)"

definition disconnect :: "WebSocketClient \<Rightarrow> WebSocketClient" where
  "disconnect w =
     w\<lparr>pingInterval := False,
       socket := None,
       isConnected := False\<rparr>"

definition handleReconnect :: "WebSocketClient \<Rightarrow> WebSocketClient" where
  "handleReconnect w =
     (if reconnectAttempts w \<ge> maxReconnectAttempts w
      then emit ''max_reconnect_attempts_reached'' w
      else w\<lparr>reconnectAttempts := reconnectAttempts w + 1,
             socket := None,
             reconnectTimers := reconnectTimers w + 1\<rparr>)"

definition browser_sets :: "bool \<Rightarrow> ready_state \<Rightarrow> WebSocketClient \<Rightarrow> WebSocketClient" where
  "browser_sets current r w =
     (if current then w\<lparr>socket := map_option (\<lambda>_. r) (socket w)\<rparr> else w)"

definition onopen :: "WebSocketClient \<Rightarrow> WebSocketClient" where
  "onopen w =
     (emit ''connected''
        (w\<lparr>isConnected := True, connectionError := None, reconnectAttempts := 0\<rparr>))
     \<lparr>pingInterval := True\<rparr>"

definition onclose :: "int \<Rightarrow> WebSocketClient \<Rightarrow> WebSocketClient" where
  "onclose code w =
     (let w1 = emit ''disconnected'' (w\<lparr>isConnected := False, pingInterval := False\<rparr>)
      in if code \<noteq> 1000 then handleReconnect w1 else w1)"

definition onerror :: "WebSocketClient \<Rightarrow> WebSocketClient" where
  "onerror w = emit ''error'' (w\<lparr>connectionError := Some ''Connection failed''\<rparr>)"

text \<open>
  What can happen to the client: a call of its public methods, an event of a socket it
  created (the current one, or an earlier one whose handlers are still attached), or a
  reconnect timer firing. The browser moves the current socket's \<^verbatim>\<open>readyState\<close> before it
  runs the handler.
\<close>

datatype ws_event =
    CallConnect bool
  | CallDisconnect
  | SocketOpen bool
  | SocketClose bool int
  | SocketError bool
  | TimerFires bool

fun ws_step :: "WebSocketClient \<Rightarrow> ws_event \<Rightarrow> WebSocketClient" where
  "ws_step w (CallConnect throws) = connect throws w"
| "ws_step w CallDisconnect = disconnect w"
| "ws_step w (SocketOpen current) = onopen (browser_sets current OPEN w)"
| "ws_step w (SocketClose current code) = onclose code (browser_sets current CLOSED w)"
| "ws_step w (SocketError current) = onerror w"
| "ws_step w (TimerFires throws) =
     (if reconnectTimers w = 0 then w
      else connect throws (w\<lparr>reconnectTimers := reconnectTimers w - 1\<rparr>))"

definition ws_run :: "ws_event list \<Rightarrow> WebSocketClient" where
  "ws_run evs = foldl ws_step wsClient evs"

text \<open>Five abnormal closes, each followed by the timer's reconnect.\<close>

definition five_drops :: "ws_event list" where
  "five_drops = concat (replicate 5 [SocketClose True 1006, TimerFires False])"

section \<open>Floating point (Go float64)\<close>

text \<open>
  Go's \<^verbatim>\<open>float64\<close> is IEEE 754 binary64. A finite value is the rational it denotes (the
  sign of zero is not kept); the infinities carry their sign (\<open>Infinity True\<close> is positive).
\<close>

datatype float64 = Finite rat | Infinity bool | NaN

text \<open>
  Rounding to the nearest integer, ties to the even one.
\<close>

definition round_even :: "rat \<Rightarrow> int" where
  "round_even q =
     (if q - of_int \<lfloor>q\<rfloor> < 1 / 2 then \<lfloor>q\<rfloor>
      else if 1 / 2 < q - of_int \<lfloor>q\<rfloor> then \<lfloor>q\<rfloor> + 1
      else if even \<lfloor>q\<rfloor> then \<lfloor>q\<rfloor> else \<lfloor>q\<rfloor> + 1)"

text \<open>
  The binary exponent of a positive rational: \<open>2 powi ilog2 x \<le> x < 2 powi (ilog2 x + 1)\<close>
  (lemma \<open>ilog2_bounds\<close>).
\<close>

definition ilog2 :: "rat \<Rightarrow> int" where
  "ilog2 x = (if 1 \<le> x then bitlen \<lfloor>x\<rfloor> - 1 else - bitlen (\<lceil>1 / x\<rceil> - 1))"

text \<open>
  The spacing of binary64 values around \<open>a\<close>: 52 fraction bits below the exponent, and
  the fixed spacing of the subnormal range below \<open>2 powi (- 1022)\<close>.
\<close>

definition ulp :: "rat \<Rightarrow> rat" where
  "ulp a = 2 powi (max (ilog2 a) (- 1022) - 52)"

definition round_to_ulp :: "rat \<Rightarrow> rat" where
  "round_to_ulp a = of_int (round_even (a / ulp a)) * ulp a"

text \<open>
  Round to nearest, ties to even, with overflow to infinity: the rounding of every
  \<^verbatim>\<open>float64\<close> operation and conversion.
\<close>

definition round64 :: "rat \<Rightarrow> float64" where
  "round64 x =
     (if x = 0 then Finite 0
      else if 2 powi 1024 \<le> round_to_ulp \<bar>x\<bar> then Infinity (0 < x)
      else Finite (if 0 < x then round_to_ulp \<bar>x\<bar> else - round_to_ulp \<bar>x\<bar>))"

definition float64_of_int :: "int \<Rightarrow> float64" where
  "float64_of_int n = round64 (of_int n)"

text \<open>
  The arithmetic of \<^verbatim>\<open>float64\<close> operands: the exact result, rounded. Division of a finite
  value by zero gives an infinity, or NaN for \<^verbatim>\<open>0/0\<close>; it does not panic.
\<close>

fun fdiv :: "float64 \<Rightarrow> float64 \<Rightarrow> float64" where
  "fdiv (Finite x) (Finite y) =
     (if y = 0 then (if x = 0 then NaN else Infinity (0 < x)) else round64 (x / y))"
| "fdiv (Finite x) (Infinity b) = Finite 0"
| "fdiv (Infinity a) (Finite y) = Infinity (a = (0 \<le> y))"
| "fdiv _ _ = NaN"

fun fmul :: "float64 \<Rightarrow> float64 \<Rightarrow> float64" where
  "fmul (Finite x) (Finite y) = round64 (x * y)"
| "fmul (Finite x) (Infinity b) = (if x = 0 then NaN else Infinity (b = (0 < x)))"
| "fmul (Infinity a) (Finite y) = (if y = 0 then NaN else Infinity (a = (0 < y)))"
| "fmul (Infinity a) (Infinity b) = Infinity (a = b)"
| "fmul _ _ = NaN"

fun fadd :: "float64 \<Rightarrow> float64 \<Rightarrow> float64" where
  "fadd (Finite x) (Finite y) = round64 (x + y)"
| "fadd (Finite x) (Infinity b) = Infinity b"
| "fadd (Infinity a) (Finite y) = Infinity a"
| "fadd (Infinity a) (Infinity b) = (if a = b then Infinity a else NaN)"
| "fadd _ _ = NaN"

fun fneg :: "float64 \<Rightarrow> float64" where
  "fneg (Finite x) = Finite (- x)"
| "fneg (Infinity b) = Infinity (\<not> b)"
| "fneg NaN = NaN"

definition fsub :: "float64 \<Rightarrow> float64 \<Rightarrow> float64" where
  "fsub a b = fadd a (fneg b)"

section \<open>Response analytics (package controllers)\<close>

text \<open>
  A stored answer, as the driver decodes it into \<^verbatim>\<open>interface{}\<close>: JSON numbers arrive as
  doubles, and the database may also hold 32- and 64-bit integers, arrays and documents.
\<close>

datatype bson =
    BNull
  | BString string
  | BInt32 int
  | BInt64 int
  | BDouble float64
  | BBool bool
  | BArray "bson list"
  | BDocument "(string \<times> bson) list"

text \<open>
  \<^verbatim>\<open>models.FieldType\<close> is a string type with these constants.
\<close>

definition FieldTypeText :: string where "FieldTypeText = ''text''"
definition FieldTypeTextarea :: string where "FieldTypeTextarea = ''textarea''"
definition FieldTypeEmail :: string where "FieldTypeEmail = ''email''"
definition FieldTypeNumber :: string where "FieldTypeNumber = ''number''"
definition FieldTypeMultipleChoice :: string where "FieldTypeMultipleChoice = ''multiple_choice''"
definition FieldTypeCheckbox :: string where "FieldTypeCheckbox = ''checkbox''"
definition FieldTypeRating :: string where "FieldTypeRating = ''rating''"
definition FieldTypeDate :: string where "FieldTypeDate = ''date''"

text \<open>
  The fields of \<^verbatim>\<open>models.FormField\<close> and \<^verbatim>\<open>models.FormResponse\<close> that the analytics read.
  \<^verbatim>\<open>Responses\<close> is the Go map \<^verbatim>\<open>map[string]interface{}\<close> as an association list (looked up with
  \<open>map_of\<close>); \<^verbatim>\<open>CreatedAt\<close> is an instant in milliseconds since the epoch, the resolution
  of a stored date.
\<close>

record FormField =
  ID :: string
  Type :: string
  Label :: string
  Required :: bool

record FormResponse =
  form_id :: string
  Responses :: "(string \<times> bson) list"
  CreatedAt :: int

type_synonym collection = "FormResponse list"

text \<open>
  \<^verbatim>\<open>len(m)\<close> of a Go map: the number of its keys.
\<close>

definition len_map :: "(string \<times> bson) list \<Rightarrow> int" where
  "len_map m = int (length (remdups (map fst m)))"

text \<open>
  The response collection is the list of its documents; a query filter is a predicate.
  The database calls are taken to succeed (their \<^verbatim>\<open>err != nil\<close> returns are not modelled).
\<close>

definition CountDocuments :: "(FormResponse \<Rightarrow> bool) \<Rightarrow> collection \<Rightarrow> int" where
  "CountDocuments q db = int (length (filter q db))"

definition Find :: "(FormResponse \<Rightarrow> bool) \<Rightarrow> collection \<Rightarrow> FormResponse list" where
  "Find q db = filter q db"

text \<open>
  The filter \<^verbatim>\<open>{"$exists": true, "$nin": [nil, ""]}\<close> on \<^verbatim>\<open>responses.<field id>\<close> of the
  documents of one form: the key is present and its value is neither null nor the empty
  string; for an array value, no element is. Field identifiers are taken to contain no dot.
\<close>

definition nin_nil_empty :: "bson \<Rightarrow> bool" where
  "nin_nil_empty v =
     (case v of
        BArray xs \<Rightarrow> BNull \<notin> set xs \<and> BString [] \<notin> set xs
      | _ \<Rightarrow> v \<noteq> BNull \<and> v \<noteq> BString [])"

definition answered :: "string \<Rightarrow> string \<Rightarrow> FormResponse \<Rightarrow> bool" where
  "answered formID fieldID r \<longleftrightarrow>
     form_id r = formID \<and>
     (case map_of (Responses r) fieldID of None \<Rightarrow> False | Some v \<Rightarrow> nin_nil_empty v)"

text \<open>
  The aggregation stages of \<^verbatim>\<open>calculateEnhancedFieldAnalytics\<close>: \<^verbatim>\<open>$project\<close> of the answer,
  \<^verbatim>\<open>$group\<close> by value with \<^verbatim>\<open>{"$sum": 1}\<close>, \<^verbatim>\<open>$sort\<close> by descending count, and \<^verbatim>\<open>$avg\<close> (the mean of
  the numeric values, other values ignored, null when there is none). The database leaves
  the order of groups with equal counts open; here groups keep the order of \<open>remdups\<close>
  and the sort is stable.
\<close>

definition project_value :: "string \<Rightarrow> FormResponse \<Rightarrow> bson" where
  "project_value fieldID r = (case map_of (Responses r) fieldID of None \<Rightarrow> BNull | Some v \<Rightarrow> v)"

definition group_count :: "bson list \<Rightarrow> (bson \<times> int) list" where
  "group_count vs = map (\<lambda>v. (v, int (count_list vs v))) (remdups vs)"

definition sort_count_desc :: "(bson \<times> int) list \<Rightarrow> (bson \<times> int) list" where
  "sort_count_desc gs = sort_key (\<lambda>g. - snd g) gs"

definition numeric :: "bson \<Rightarrow> float64 option" where
  "numeric v =
     (case v of
        BInt32 n \<Rightarrow> Some (float64_of_int n)
      | BInt64 n \<Rightarrow> Some (float64_of_int n)
      | BDouble d \<Rightarrow> Some d
      | _ \<Rightarrow> None)"

definition mongo_avg :: "bson list \<Rightarrow> float64 option" where
  "mongo_avg vs =
     (case List.map_filter numeric vs of
        [] \<Rightarrow> None
      | d # ds \<Rightarrow> Some (fdiv (foldl fadd (Finite 0) (d # ds)) (float64_of_int (int (length (d # ds))))))"

text \<open>
  A \<^verbatim>\<open>*time.Location\<close> as far as \<^verbatim>\<open>calculateResponseTrends\<close> uses it: the calendar day (counted
  from the epoch) of an instant in that zone, and the instant of local midnight of a
  calendar day. \<^verbatim>\<open>now.AddDate(0, 0, -i)\<close> moves the calendar date back by \<open>i\<close> days and
  \<^verbatim>\<open>time.Date(y, m, d, 0, 0, 0, 0, loc)\<close> is the local midnight of that date.
\<close>

record Location =
  civil_day :: "int \<Rightarrow> int"
  midnight :: "int \<Rightarrow> int"

definition Hour :: int where
  "Hour = 3600000"

definition UTC :: Location where
  "UTC = \<lparr>civil_day = (\<lambda>t. t div (24 * Hour)), midnight = (\<lambda>d. d * (24 * Hour))\<rparr>"

text \<open>
  \<^verbatim>\<open>calculateResponseTrends\<close>: one entry per \<open>i = 6, \<dots>, 0\<close>. The entry's \<^verbatim>\<open>date\<close> is kept as the
  instant \<^verbatim>\<open>startOfDay\<close> that the code formats as \<^verbatim>\<open>2006-01-02\<close>.
\<close>

record trend =
  date :: int
  count :: int

definition calculateResponseTrends :: "Location \<Rightarrow> int \<Rightarrow> collection \<Rightarrow> string \<Rightarrow> trend list" where
  "calculateResponseTrends loc now db formID =
     map (\<lambda>i. let startOfDay = midnight loc (civil_day loc now - i);
                   endOfDay = startOfDay + 24 * Hour
               in \<lparr>date = startOfDay,
                   count = CountDocuments
                             (\<lambda>r. form_id r = formID \<and> startOfDay \<le> CreatedAt r \<and> CreatedAt r < endOfDay)
                             db\<rparr>)
         [6, 5, 4, 3, 2, 1, 0]"

text \<open>
  \<^verbatim>\<open>calculateCompletionMetrics\<close>: the identifiers of the required fields, the completeness
  test of one response, and the loop over the responses with its two accumulators.
\<close>

definition requiredFields :: "FormField list \<Rightarrow> string list" where
  "requiredFields fields' = map ID (filter Required fields')"

text \<open>
  The test of the inner loop, \<^verbatim>\<open>value, exists := response.Responses[fieldID]\<close> with
  \<^verbatim>\<open>!exists || value == nil || value == ""\<close> negated: the key is there and its value is neither nil
  nor the empty string. Any other value passes, also an empty list.
\<close>

definition has_value :: "FormResponse \<Rightarrow> string \<Rightarrow> bool" where
  "has_value response fieldID \<longleftrightarrow>
     (case map_of (Responses response) fieldID of
        None \<Rightarrow> False
      | Some v \<Rightarrow> v \<noteq> BNull \<and> v \<noteq> BString [])"

definition isComplete :: "string list \<Rightarrow> FormResponse \<Rightarrow> bool" where
  "isComplete required response \<longleftrightarrow> list_all (has_value response) required"

fun completion_loop :: "string list \<Rightarrow> FormResponse list \<Rightarrow> int \<times> float64 \<Rightarrow> int \<times> float64" where
  "completion_loop required [] acc = acc"
| "completion_loop required (response # rest) (completedResponses, totalCompletionTime) =
     completion_loop required rest
       (if isComplete required response then completedResponses + 1 else completedResponses,
        fadd totalCompletionTime (fmul (float64_of_int (len_map (Responses response))) (Finite 10)))"

definition calculateCompletionMetrics :: "collection \<Rightarrow> string \<Rightarrow> FormField list \<Rightarrow> float64 \<times> float64" where
  "calculateCompletionMetrics db formID fields' =
     (let responses = Find (\<lambda>r. form_id r = formID) db
      in if length responses = 0 then (Finite 0, Finite 0)
         else case completion_loop (requiredFields fields') responses (0, Finite 0) of
                (completedResponses, totalCompletionTime) \<Rightarrow>
                  (fmul (fdiv (float64_of_int completedResponses)
                              (float64_of_int (int (length responses))))
                        (Finite 100),
                   fdiv totalCompletionTime (float64_of_int (int (length responses)))))"

text \<open>
  The \<^verbatim>\<open>fiber.Map\<close> results of \<^verbatim>\<open>calculateEnhancedFieldAnalytics\<close> as records; \<^verbatim>\<open>average_rating\<close>
  is a key that is only set in the rating branch. The value of a common response is the
  grouped answer, or the Go \<^verbatim>\<open>int\<close> of a rating bucket, written \<open>BInt64\<close>.
\<close>

record common_response =
  cr_value :: bson
  cr_count :: int
  percentage :: float64

record field_analytics =
  field_id :: string
  field_label :: string
  field_type :: string
  response_rate :: float64
  skip_rate :: float64
  unique_responses :: int
  common_responses :: "common_response list"
  average_rating :: "float64 option"

text \<open>
  \<^verbatim>\<open>choice["count"].(int32)\<close> panics when the count is not an \<^verbatim>\<open>int32\<close>: the database returns a
  64-bit count once the sum exceeds 32 bits.
\<close>

datatype go_panic = InterfaceConversion

definition percentage_of :: "int \<Rightarrow> int \<Rightarrow> float64" where
  "percentage_of n d = fmul (fdiv (float64_of_int n) (float64_of_int d)) (Finite 100)"

fun choice_rows :: "int \<Rightarrow> (bson \<times> int) list \<Rightarrow> go_panic + common_response list" where
  "choice_rows fieldResponseCount [] = Inr []"
| "choice_rows fieldResponseCount ((v, n) # rest) =
     (if v \<noteq> BNull then
        (if n < 2 ^ 31 then
           (case choice_rows fieldResponseCount rest of
              Inl p \<Rightarrow> Inl p
            | Inr rows \<Rightarrow>
                Inr (\<lparr>cr_value = v, cr_count = n,
                       percentage = percentage_of n fieldResponseCount\<rparr> # rows))
         else Inl InterfaceConversion)
      else choice_rows fieldResponseCount rest)"

definition truncate_text :: "bson \<Rightarrow> string" where
  "truncate_text v =
     (case v of
        BString str \<Rightarrow> if length str > 50 then take 47 str @ ''...'' else str
      | _ \<Rightarrow> [])"

fun text_rows :: "int \<Rightarrow> (bson \<times> int) list \<Rightarrow> go_panic + common_response list" where
  "text_rows fieldResponseCount [] = Inr []"
| "text_rows fieldResponseCount ((v, n) # rest) =
     (if v \<noteq> BNull then
        (if n < 2 ^ 31 then
           (case text_rows fieldResponseCount rest of
              Inl p \<Rightarrow> Inl p
            | Inr rows \<Rightarrow>
                Inr (\<lparr>cr_value = BString (truncate_text v), cr_count = n,
                       percentage = percentage_of n fieldResponseCount\<rparr> # rows))
         else Inl InterfaceConversion)
      else text_rows fieldResponseCount rest)"

text \<open>
  \<^verbatim>\<open>int(r)\<close> of a \<^verbatim>\<open>float64\<close> truncates toward zero; for NaN, the infinities and a value
  outside the 64-bit range the result is the platform's (the smallest 64-bit integer on
  amd64).
\<close>

definition go_int :: "float64 \<Rightarrow> int" where
  "go_int d =
     (case d of
        Finite x \<Rightarrow>
          (if - (2 ^ 63) \<le> (if 0 \<le> x then \<lfloor>x\<rfloor> else \<lceil>x\<rceil>)
              \<and> (if 0 \<le> x then \<lfloor>x\<rfloor> else \<lceil>x\<rceil>) < 2 ^ 63
           then (if 0 \<le> x then \<lfloor>x\<rfloor> else \<lceil>x\<rceil>)
           else - (2 ^ 63))
      | _ \<Rightarrow> - (2 ^ 63))"

fun rating_distribution :: "bson list \<Rightarrow> (int \<Rightarrow> int) \<Rightarrow> (int \<Rightarrow> int)" where
  "rating_distribution [] distribution = distribution"
| "rating_distribution (rating # ratings) distribution =
     rating_distribution ratings
       (case rating of
          BInt32 r \<Rightarrow> distribution(r := distribution r + 1)
        | BDouble r \<Rightarrow> distribution(go_int r := distribution (go_int r) + 1)
        | _ \<Rightarrow> distribution)"

definition rating_rows :: "(int \<Rightarrow> int) \<Rightarrow> int \<Rightarrow> common_response list" where
  "rating_rows distribution n =
     map (\<lambda>rating. \<lparr>cr_value = BInt64 rating, cr_count = distribution rating,
                     percentage = percentage_of (distribution rating) n\<rparr>)
         (filter (\<lambda>rating. distribution rating > 0) [1, 2, 3, 4, 5])"

definition calculateEnhancedFieldAnalytics ::
  "collection \<Rightarrow> string \<Rightarrow> FormField \<Rightarrow> int \<Rightarrow> go_panic + field_analytics" where
  "calculateEnhancedFieldAnalytics db formID field totalResponses =
     (let fieldResponseCount = CountDocuments (answered formID (ID field)) db;
          responseRate = (if totalResponses > 0
                          then percentage_of fieldResponseCount totalResponses else Finite 0);
          skipRate = (if totalResponses > 0 then fsub (Finite 100) responseRate else Finite 100);
          result = \<lparr>field_id = ID field, field_label = Label field, field_type = Type field,
                     response_rate = responseRate, skip_rate = skipRate,
                     unique_responses = 0, common_responses = [], average_rating = None\<rparr>;
          values = map (project_value (ID field)) (Find (answered formID (ID field)) db)
      in if Type field = FieldTypeMultipleChoice \<or> Type field = FieldTypeCheckbox then
           (let choiceResults = take 10 (sort_count_desc (group_count values))
            in case choice_rows fieldResponseCount choiceResults of
                 Inl p \<Rightarrow> Inl p
               | Inr commonResponses \<Rightarrow>
                   Inr (result\<lparr>common_responses := commonResponses,
                               unique_responses := int (length choiceResults)\<rparr>))
         else if Type field = FieldTypeRating then
           (if values = [] then Inr result
            else Inr (result\<lparr>average_rating := mongo_avg values,
                             common_responses :=
                               rating_rows (rating_distribution values (\<lambda>_. 0))
                                           (int (length values))\<rparr>))
         else if Type field = FieldTypeText \<or> Type field = FieldTypeTextarea
                 \<or> Type field = FieldTypeEmail then
           (let textResults = take 5 (sort_count_desc (group_count values))
            in case text_rows fieldResponseCount textResults of
                 Inl p \<Rightarrow> Inl p
               | Inr commonResponses \<Rightarrow>
                   Inr (result\<lparr>common_responses := commonResponses,
                               unique_responses := int (length textResults)\<rparr>))
         else Inr result)"

fun field_loop :: "collection \<Rightarrow> string \<Rightarrow> int \<Rightarrow> FormField list \<Rightarrow> go_panic + field_analytics list" where
  "field_loop db formID totalResponses [] = Inr []"
| "field_loop db formID totalResponses (field # fields') =
     (case calculateEnhancedFieldAnalytics db formID field totalResponses of
        Inl p \<Rightarrow> Inl p
      | Inr analytics \<Rightarrow>
          (case field_loop db formID totalResponses fields' of
             Inl p \<Rightarrow> Inl p
           | Inr rest \<Rightarrow> Inr (analytics # rest)))"

text \<open>
  \<^verbatim>\<open>calculateAnalytics\<close>: \<^verbatim>\<open>models.FormAnalytics\<close> with the keys of its \<^verbatim>\<open>FieldAnalytics\<close> map as
  fields of the record.
\<close>

record FormAnalytics =
  analytics_FormID :: string
  TotalResponses :: int
  ResponsesLast24h :: int
  ResponsesLastWeek :: int
  ResponsesLastMonth :: int
  total_responses :: int
  completion_rate :: float64
  average_completion_time :: float64
  response_trends :: "trend list"
  field_analytics :: "field_analytics list"
  UpdatedAt :: int

definition calculateAnalytics ::
  "Location \<Rightarrow> int \<Rightarrow> collection \<Rightarrow> string \<Rightarrow> FormField list \<Rightarrow> go_panic + FormAnalytics" where
  "calculateAnalytics loc now db formID fields' =
     (let last24h = now - 24 * Hour;
          lastWeek = now - 7 * 24 * Hour;
          lastMonth = now - 30 * 24 * Hour;
          total' = CountDocuments (\<lambda>r. form_id r = formID) db;
          count24h = CountDocuments (\<lambda>r. form_id r = formID \<and> last24h \<le> CreatedAt r) db;
          countWeek = CountDocuments (\<lambda>r. form_id r = formID \<and> lastWeek \<le> CreatedAt r) db;
          countMonth = CountDocuments (\<lambda>r. form_id r = formID \<and> lastMonth \<le> CreatedAt r) db;
          responseTrends = calculateResponseTrends loc now db formID;
          metrics = calculateCompletionMetrics db formID fields'
      in case field_loop db formID total' fields' of
           Inl p \<Rightarrow> Inl p
         | Inr fieldAnalytics \<Rightarrow>
             Inr \<lparr>analytics_FormID = formID, TotalResponses = total', ResponsesLast24h = count24h,
                  ResponsesLastWeek = countWeek, ResponsesLastMonth = countMonth,
                  total_responses = total', completion_rate = fst metrics,
                  average_completion_time = snd metrics, response_trends = responseTrends,
                  field_analytics = fieldAnalytics, UpdatedAt = now\<rparr>)"

text \<open>
  The value of the loop's counter \<^verbatim>\<open>completedResponses\<close> for a collection.
\<close>

definition completedResponses :: "collection \<Rightarrow> string \<Rightarrow> FormField list \<Rightarrow> int" where
  "completedResponses db formID fields' =
     fst (completion_loop (requiredFields fields') (Find (\<lambda>r. form_id r = formID) db) (0, Finite 0))"


text \<open>
  Example data: a required rating field, an optional comment field and a required checkbox
  field; responses that answer the rating, that leave it empty, and that tick no checkbox.
\<close>

definition rating_field :: FormField where
  "rating_field = \<lparr>ID = ''q1'', Type = FieldTypeRating, Label = ''Rate us'', Required = True\<rparr>"

definition rated :: "rat \<Rightarrow> int \<Rightarrow> FormResponse" where
  "rated x t = \<lparr>form_id = ''form1'', Responses = [(''q1'', BDouble (Finite x))], CreatedAt = t\<rparr>"





definition skip_rates :: "go_panic + FormAnalytics \<Rightarrow> float64 list" where
  "skip_rates r = (case r of Inl p \<Rightarrow> [] | Inr a \<Rightarrow> map skip_rate (field_analytics a))"


text \<open>
  Each of the seven calendar days of the window starts 24 hours after the day before:
  no change of the zone's offset falls into the window.
\<close>

definition days_are_24h :: "Location \<Rightarrow> int \<Rightarrow> bool" where
  "days_are_24h loc now \<longleftrightarrow>
     list_all (\<lambda>i. midnight loc (civil_day loc now - i)
                      = midnight loc (civil_day loc now - (i + 1)) + 24 * Hour)
              [0, 1, 2, 3, 4, 5]"

text \<open>
  Central European time around 29 March 2026 (day 20541 of the epoch): UTC+1 until
  01:00 UTC of that day and UTC+2 from then on, so that day has 23 hours.
\<close>

definition Berlin_2026 :: Location where
  "Berlin_2026 =
     \<lparr>civil_day = (\<lambda>t. (t + (if t < 20541 * (24 * Hour) + Hour then Hour else 2 * Hour)) div (24 * Hour)),
      midnight = (\<lambda>d. d * (24 * Hour) - (if d \<le> 20541 then Hour else 2 * Hour))\<rparr>"

definition week_db :: collection where
  "week_db =
     [rated 5 (20541 * (24 * Hour) + 11 * Hour),
      rated 3 (20538 * (24 * Hour) + 7 * Hour),
      rated 1 (20531 * (24 * Hour) + 7 * Hour)]"

section \<open>Properties of the hub\<close>

lemma NewHub_inv: "hub_inv (NewHub h)"
  by (simp add: hub_inv_def NewHub_def)

lemma hub_Unregister_inv:
  "hub_inv s \<Longrightarrow> hub_Unregister c s = Inr s' \<Longrightarrow> hub_inv s'"
  by (auto simp: hub_inv_def hub_Unregister_def close_chan_def Let_def split: if_splits)

lemma send_or_drop_inv:
  "hub_inv s \<Longrightarrow> send_or_drop m c s = Inr s' \<Longrightarrow> hub_inv s'"
  by (auto simp: hub_inv_def send_or_drop_def try_send_def close_chan_def split: if_splits)

lemma range_Clients_inv:
  assumes step: "\<And>c s s'. hub_inv s \<Longrightarrow> body c s = Inr s' \<Longrightarrow> hub_inv s'"
    and "hub_inv s" and "range_Clients body cs s = Inr s'"
  shows "hub_inv s'"
  using assms(2,3)
proof (induction cs arbitrary: s)
  case Nil
  then show ?case by simp
next
  case (Cons c cs)
  show ?case
  proof (cases "Clients s c = None")
    case True
    with Cons show ?thesis by simp
  next
    case False
    with Cons.prems obtain s1 where b: "body c s = Inr s1" and r: "range_Clients body cs s1 = Inr s'"
      by (auto split: sum.splits)
    from step [OF Cons.prems(1) b] have "hub_inv s1" .
    with Cons.IH r show ?thesis by blast
  qed
qed

lemma hub_Broadcast_inv:
  assumes "hub_inv s" and "hub_Broadcast m order s = Inr s'"
  shows "hub_inv s'"
proof (rule range_Clients_inv)
  show "hub_inv s" by fact
  show "range_Clients (send_or_drop m) order s = Inr s'"
    using assms(2) by (simp add: hub_Broadcast_def)
  show "\<And>c s s'. hub_inv s \<Longrightarrow> send_or_drop m c s = Inr s' \<Longrightarrow> hub_inv s'"
    by (rule send_or_drop_inv)
qed

lemma BroadcastToForm_inv:
  assumes "hub_inv s" and "BroadcastToForm js formID mt d order s = Inr s'"
  shows "hub_inv s'"
proof (cases "js \<lparr>msg_Type = mt, msg_FormID = formID, msg_Data = d, msg_EventID = []\<rparr>")
  case None
  with assms show ?thesis by (simp add: BroadcastToForm_def)
next
  case (Some jsonData)
  let ?body = "\<lambda>client s. if FormID (heap s client) = [] \<or> FormID (heap s client) = formID
                         then send_or_drop jsonData client s else Inr s"
  show ?thesis
  proof (rule range_Clients_inv)
    show "hub_inv s" by fact
    show "range_Clients ?body order s = Inr s'"
      using assms(2) Some by (simp add: BroadcastToForm_def)
    show "\<And>c s s'. hub_inv s \<Longrightarrow> ?body c s = Inr s' \<Longrightarrow> hub_inv s'"
      by (auto dest: send_or_drop_inv split: if_splits)
  qed
qed

lemma HandleWebSocket_inv:
  "hub_inv s \<Longrightarrow> HandleWebSocket js g c s = Inr s' \<Longrightarrow> hub_inv s'"
  by (auto simp: hub_inv_def HandleWebSocket_def hub_Register_def make_chan_def try_send_def
      Let_def split: option.splits if_splits)

lemma readPump_message_inv:
  "hub_inv s \<Longrightarrow> readPump_message js c msg s = Inr s' \<Longrightarrow> hub_inv s'"
  by (auto simp: hub_inv_def readPump_message_def try_send_def
      split: option.splits if_splits jvalue.splits)

lemma send_or_drop_open:
  assumes "\<not> closed (Send (heap s c))"
  shows "send_or_drop m c s =
     Inr (if full (Send (heap s c))
          then s\<lparr>heap := (heap s)(c := (heap s c)\<lparr>Send := (Send (heap s c))\<lparr>closed := True\<rparr>\<rparr>),
                 Clients := (Clients s)(c := None)\<rparr>
          else s\<lparr>heap := (heap s)(c := (heap s c)\<lparr>Send := (Send (heap s c))\<lparr>buf := buf (Send (heap s c)) @ [m]\<rparr>\<rparr>)\<rparr>)"
  using assms by (simp add: send_or_drop_def try_send_def close_chan_def full_def)

lemma range_deliver:
  assumes "distinct cs"
    and "\<forall>c\<in>set cs. Clients s c \<noteq> None \<longrightarrow> \<not> closed (Send (heap s c))"
  shows "\<exists>s'. range_Clients (\<lambda>c s. if P (heap s c) then send_or_drop m c s else Inr s) cs s = Inr s'
     \<and> (\<forall>c. heap s' c =
           (if c \<in> set cs \<and> Clients s c \<noteq> None \<and> P (heap s c) then
              (if full (Send (heap s c))
               then (heap s c)\<lparr>Send := (Send (heap s c))\<lparr>closed := True\<rparr>\<rparr>
               else (heap s c)\<lparr>Send := (Send (heap s c))\<lparr>buf := buf (Send (heap s c)) @ [m]\<rparr>\<rparr>)
            else heap s c))
     \<and> (\<forall>c. Clients s' c =
           (if c \<in> set cs \<and> Clients s c \<noteq> None \<and> P (heap s c) \<and> full (Send (heap s c))
            then None else Clients s c))"
  using assms
proof (induction cs arbitrary: s)
  case Nil
  then show ?case by simp
next
  case (Cons a cs)
  let ?body = "\<lambda>c s. if P (heap s c) then send_or_drop m c s else Inr s"
  have d: "distinct cs" and a: "a \<notin> set cs" using Cons.prems(1) by simp_all
  show ?case
  proof (cases "Clients s a \<noteq> None \<and> P (heap s a)")
    case False
    have run: "range_Clients ?body (a # cs) s = range_Clients ?body cs s"
      using False by auto
    have "\<forall>c\<in>set cs. Clients s c \<noteq> None \<longrightarrow> \<not> closed (Send (heap s c))"
      using Cons.prems(2) by simp
    from Cons.IH [OF d this] obtain s' where
      r: "range_Clients ?body cs s = Inr s'"
      and h: "\<forall>c. heap s' c =
           (if c \<in> set cs \<and> Clients s c \<noteq> None \<and> P (heap s c) then
              (if full (Send (heap s c))
               then (heap s c)\<lparr>Send := (Send (heap s c))\<lparr>closed := True\<rparr>\<rparr>
               else (heap s c)\<lparr>Send := (Send (heap s c))\<lparr>buf := buf (Send (heap s c)) @ [m]\<rparr>\<rparr>)
            else heap s c)"
      and k: "\<forall>c. Clients s' c =
           (if c \<in> set cs \<and> Clients s c \<noteq> None \<and> P (heap s c) \<and> full (Send (heap s c))
            then None else Clients s c)"
      by blast
    show ?thesis
    proof (intro exI conjI allI)
      show "range_Clients ?body (a # cs) s = Inr s'" using run r by simp
    next
      fix c show "heap s' c =
           (if c \<in> set (a # cs) \<and> Clients s c \<noteq> None \<and> P (heap s c) then
              (if full (Send (heap s c))
               then (heap s c)\<lparr>Send := (Send (heap s c))\<lparr>closed := True\<rparr>\<rparr>
               else (heap s c)\<lparr>Send := (Send (heap s c))\<lparr>buf := buf (Send (heap s c)) @ [m]\<rparr>\<rparr>)
            else heap s c)"
        using h [rule_format, of c] False by (cases "c = a") auto
    next
      fix c show "Clients s' c =
           (if c \<in> set (a # cs) \<and> Clients s c \<noteq> None \<and> P (heap s c) \<and> full (Send (heap s c))
            then None else Clients s c)"
        using k [rule_format, of c] False by (cases "c = a") auto
    qed
  next
    case True
    then have reg: "Clients s a \<noteq> None" and pa: "P (heap s a)" by simp_all
    have op: "\<not> closed (Send (heap s a))" using Cons.prems(2) reg by simp
    define s1 where "s1 = (if full (Send (heap s a))
          then s\<lparr>heap := (heap s)(a := (heap s a)\<lparr>Send := (Send (heap s a))\<lparr>closed := True\<rparr>\<rparr>),
                 Clients := (Clients s)(a := None)\<rparr>
          else s\<lparr>heap := (heap s)(a := (heap s a)\<lparr>Send := (Send (heap s a))\<lparr>buf := buf (Send (heap s a)) @ [m]\<rparr>\<rparr>)\<rparr>)"
    have b: "?body a s = Inr s1"
      using pa send_or_drop_open [OF op, of m] by (simp add: s1_def)
    have run: "range_Clients ?body (a # cs) s = range_Clients ?body cs s1"
      using reg b by auto
    have h1: "\<And>c. c \<noteq> a \<Longrightarrow> heap s1 c = heap s c"
      and k1: "\<And>c. c \<noteq> a \<Longrightarrow> Clients s1 c = Clients s c"
      by (simp_all add: s1_def)
    have "\<forall>c\<in>set cs. Clients s1 c \<noteq> None \<longrightarrow> \<not> closed (Send (heap s1 c))"
      using Cons.prems(2) a h1 k1 by (metis list.set_intros(2))
    from Cons.IH [OF d this] obtain s' where
      r: "range_Clients ?body cs s1 = Inr s'"
      and h: "\<forall>c. heap s' c =
           (if c \<in> set cs \<and> Clients s1 c \<noteq> None \<and> P (heap s1 c) then
              (if full (Send (heap s1 c))
               then (heap s1 c)\<lparr>Send := (Send (heap s1 c))\<lparr>closed := True\<rparr>\<rparr>
               else (heap s1 c)\<lparr>Send := (Send (heap s1 c))\<lparr>buf := buf (Send (heap s1 c)) @ [m]\<rparr>\<rparr>)
            else heap s1 c)"
      and k: "\<forall>c. Clients s' c =
           (if c \<in> set cs \<and> Clients s1 c \<noteq> None \<and> P (heap s1 c) \<and> full (Send (heap s1 c))
            then None else Clients s1 c)"
      by blast
    show ?thesis
    proof (intro exI conjI allI)
      show "range_Clients ?body (a # cs) s = Inr s'" using run r by simp
    next
      fix c show "heap s' c =
           (if c \<in> set (a # cs) \<and> Clients s c \<noteq> None \<and> P (heap s c) then
              (if full (Send (heap s c))
               then (heap s c)\<lparr>Send := (Send (heap s c))\<lparr>closed := True\<rparr>\<rparr>
               else (heap s c)\<lparr>Send := (Send (heap s c))\<lparr>buf := buf (Send (heap s c)) @ [m]\<rparr>\<rparr>)
            else heap s c)"
      proof (cases "c = a")
        case True
        with h [rule_format, of a] a reg pa show ?thesis by (simp add: s1_def)
      next
        case False
        with h [rule_format, of c] h1 [OF False] k1 [OF False] show ?thesis by auto
      qed
    next
      fix c show "Clients s' c =
           (if c \<in> set (a # cs) \<and> Clients s c \<noteq> None \<and> P (heap s c) \<and> full (Send (heap s c))
            then None else Clients s c)"
      proof (cases "c = a")
        case True
        with k [rule_format, of a] a reg pa show ?thesis by (simp add: s1_def)
      next
        case False
        with k [rule_format, of c] h1 [OF False] k1 [OF False] show ?thesis by auto
      qed
    qed
  qed
qed


lemma writePump_recv_inv: "hub_inv s \<Longrightarrow> hub_inv (writePump_recv c s)"
  by (auto simp: hub_inv_def writePump_recv_def chan_recv_def split: list.splits option.splits)

lemma reachable_inv: "reachable s \<Longrightarrow> hub_inv s"
proof (induction rule: reachable.induct)
  case (init h)
  show ?case by (rule NewHub_inv)
next
  case (connect s js g c s')
  then show ?case by (blast intro: HandleWebSocket_inv)
next
  case (unregister s c s')
  then show ?case by (blast intro: hub_Unregister_inv)
next
  case (broadcast s m order s')
  then show ?case by (blast intro: hub_Broadcast_inv)
next
  case (to_form s js formID mt d order s')
  then show ?case by (blast intro: BroadcastToForm_inv)
next
  case (frame s js c msg s')
  then show ?case by (blast intro: readPump_message_inv)
next
  case (drain s c)
  then show ?case by (blast intro: writePump_recv_inv)
qed

lemma example_hub_inv: "hub_inv example_hub"
  by (simp add: hub_inv_def example_hub_def example_heap_def make_chan_def)

lemma example_hub_order: "range_order example_hub [10, 11, 12, 13]"
  by (auto simp: range_order_def example_hub_def split: if_splits)

lemma range_order_open:
  assumes "hub_inv s" and "range_order s order"
  shows "distinct order"
    and "\<forall>c\<in>set order. Clients s c \<noteq> None \<longrightarrow> \<not> closed (Send (heap s c))"
    and "\<And>c. c \<in> set order \<longleftrightarrow> Clients s c \<noteq> None"
  using assms by (auto simp: hub_inv_def range_order_def)

subsection \<open>Topic fan-out\<close>

text \<open>
  Claim C1, as the code has it. \<^verbatim>\<open>BroadcastToForm\<close> never panics in a state where every
  registered client's queue is open, and it appends the marshalled event to the queue of
  exactly the registered clients whose \<^verbatim>\<open>FormID\<close> is the event's form or is empty (the general
  subscription of a client that never subscribed) and whose queue has room. The queue of every
  other client, registered under another form or not registered at all, keeps its contents;
  so does the queue of a target that is full.
\<close>

theorem BroadcastToForm_delivery:
  assumes "hub_inv s" and "range_order s order"
    and "js \<lparr>msg_Type = mt, msg_FormID = formID, msg_Data = d, msg_EventID = []\<rparr> = Some jsonData"
  shows "\<exists>s'. BroadcastToForm js formID mt d order s = Inr s' \<and>
           (\<forall>c. buf (Send (heap s' c)) =
                  (if Clients s c \<noteq> None
                      \<and> (FormID (heap s c) = [] \<or> FormID (heap s c) = formID)
                      \<and> \<not> full (Send (heap s c))
                   then buf (Send (heap s c)) @ [jsonData]
                   else buf (Send (heap s c))))"
proof -
  note o = range_order_open [OF assms(1,2)]
  from range_deliver [OF o(1) o(2), of "\<lambda>cl. FormID cl = [] \<or> FormID cl = formID" jsonData]
  obtain s' where
    r: "range_Clients (\<lambda>c s. if FormID (heap s c) = [] \<or> FormID (heap s c) = formID
                               then send_or_drop jsonData c s else Inr s) order s = Inr s'"
    and h: "\<forall>c. heap s' c =
           (if c \<in> set order \<and> Clients s c \<noteq> None \<and> (FormID (heap s c) = [] \<or> FormID (heap s c) = formID) then
              (if full (Send (heap s c))
               then (heap s c)\<lparr>Send := (Send (heap s c))\<lparr>closed := True\<rparr>\<rparr>
               else (heap s c)\<lparr>Send := (Send (heap s c))\<lparr>buf := buf (Send (heap s c)) @ [jsonData]\<rparr>\<rparr>)
            else heap s c)"
    by blast
  have "BroadcastToForm js formID mt d order s = Inr s'"
    using r assms(3) by (simp add: BroadcastToForm_def)
  moreover have "buf (Send (heap s' c)) =
                  (if Clients s c \<noteq> None
                      \<and> (FormID (heap s c) = [] \<or> FormID (heap s c) = formID)
                      \<and> \<not> full (Send (heap s c))
                   then buf (Send (heap s c)) @ [jsonData]
                   else buf (Send (heap s c)))" for c
    using h [rule_format, of c] o(3) [of c] by auto
  ultimately show ?thesis by blast
qed

text \<open>
  Claim C1, witness: in the example hub a broadcast for form A reaches clients 10 (never
  subscribed) and 13 (subscribed to A), and neither 11 (full) nor 12 (subscribed to B).
\<close>

theorem BroadcastToForm_delivery_witness:
  "hub_inv example_hub \<and> range_order example_hub [10, 11, 12, 13] \<and>
   queue_after 10 (BroadcastToForm example_marshal ''A'' ''t'' JNull [10, 11, 12, 13] example_hub) = Some [''t|A''] \<and>
   queue_after 11 (BroadcastToForm example_marshal ''A'' ''t'' JNull [10, 11, 12, 13] example_hub) = Some (replicate 256 ''x'') \<and>
   queue_after 12 (BroadcastToForm example_marshal ''A'' ''t'' JNull [10, 11, 12, 13] example_hub) = Some [] \<and>
   queue_after 13 (BroadcastToForm example_marshal ''A'' ''t'' JNull [10, 11, 12, 13] example_hub) = Some [''t|A'']"
proof -
  have m: "example_marshal \<lparr>msg_Type = ''t'', msg_FormID = ''A'', msg_Data = JNull, msg_EventID = []\<rparr> = Some ''t|A''"
    by (simp add: example_marshal_def)
  from BroadcastToForm_delivery
         [of example_hub "[10, 11, 12, 13]" example_marshal "''t''" "''A''" JNull "''t|A''",
          OF example_hub_inv example_hub_order m]
  obtain s' where r: "BroadcastToForm example_marshal ''A'' ''t'' JNull [10, 11, 12, 13] example_hub = Inr s'"
    and q: "\<And>c. buf (Send (heap s' c)) =
                  (if Clients example_hub c \<noteq> None
                      \<and> (FormID (heap example_hub c) = [] \<or> FormID (heap example_hub c) = ''A'')
                      \<and> \<not> full (Send (heap example_hub c))
                   then buf (Send (heap example_hub c)) @ [''t|A'']
                   else buf (Send (heap example_hub c)))"
    by blast
  have "buf (Send (heap s' 10)) = [''t|A'']" "buf (Send (heap s' 11)) = replicate 256 ''x''"
    "buf (Send (heap s' 12)) = []" "buf (Send (heap s' 13)) = [''t|A'']"
    using q [of 10] q [of 11] q [of 12] q [of 13]
    by (simp_all add: example_hub_def example_heap_def make_chan_def full_def)
  then show ?thesis
    by (simp add: r queue_after_def example_hub_inv example_hub_order)
qed

text \<open>
  Claim C1, counterexample to the claim as stated (delivery only to connections whose topic equals
  the event's): client 10 is registered, its topic is not A, its queue is empty before the
  broadcast for form A and holds the event after it.
\<close>

theorem BroadcastToForm_unsubscribed_counterexample:
  "Clients example_hub 10 \<noteq> None \<and> FormID (heap example_hub 10) \<noteq> ''A'' \<and>
   queue_after 10 (Inr example_hub) = Some [] \<and>
   queue_after 10 (BroadcastToForm example_marshal ''A'' ''t'' JNull [10, 11, 12, 13] example_hub)
     = Some [''t|A'']"
  by (simp add: queue_after_def BroadcastToForm_def example_marshal_def example_hub_def
      example_heap_def send_or_drop_def try_send_def close_chan_def make_chan_def)

subsection \<open>Slow consumers\<close>

text \<open>
  Claim C2. In both fan-out loops (\<^verbatim>\<open>BroadcastToForm\<close> and the \<^verbatim>\<open>Broadcast\<close> case of \<^verbatim>\<open>Hub.Run\<close>) the
  call completes, every target whose queue is full is closed and removed from the registry
  in that call, and every other target has the event appended to its queue and stays
  registered with its queue open, whatever the iteration order and however many targets
  were full.
\<close>

theorem broadcast_evicts_full:
  assumes "hub_inv s" and "range_order s order"
    and "js \<lparr>msg_Type = mt, msg_FormID = formID, msg_Data = d, msg_EventID = []\<rparr> = Some jsonData"
  shows "\<exists>s1 s2. BroadcastToForm js formID mt d order s = Inr s1 \<and>
           hub_Broadcast jsonData order s = Inr s2 \<and>
           (\<forall>c. Clients s c \<noteq> None \<and> (FormID (heap s c) = [] \<or> FormID (heap s c) = formID) \<longrightarrow>
                (if full (Send (heap s c))
                 then closed (Send (heap s1 c)) \<and> Clients s1 c = None
                 else buf (Send (heap s1 c)) = buf (Send (heap s c)) @ [jsonData] \<and>
                      \<not> closed (Send (heap s1 c)) \<and> Clients s1 c = Clients s c)) \<and>
           (\<forall>c. Clients s c \<noteq> None \<longrightarrow>
                (if full (Send (heap s c))
                 then closed (Send (heap s2 c)) \<and> Clients s2 c = None
                 else buf (Send (heap s2 c)) = buf (Send (heap s c)) @ [jsonData] \<and>
                      \<not> closed (Send (heap s2 c)) \<and> Clients s2 c = Clients s c))"
proof -
  note o = range_order_open [OF assms(1,2)]
  have op: "\<not> closed (Send (heap s c))" if "Clients s c \<noteq> None" for c
    using assms(1) that by (simp add: hub_inv_def)
  from range_deliver [OF o(1) o(2), of "\<lambda>cl. FormID cl = [] \<or> FormID cl = formID" jsonData]
  obtain s1 where
    r1: "range_Clients (\<lambda>c s. if FormID (heap s c) = [] \<or> FormID (heap s c) = formID
                               then send_or_drop jsonData c s else Inr s) order s = Inr s1"
    and h1: "\<forall>c. heap s1 c =
           (if c \<in> set order \<and> Clients s c \<noteq> None \<and> (FormID (heap s c) = [] \<or> FormID (heap s c) = formID) then
              (if full (Send (heap s c))
               then (heap s c)\<lparr>Send := (Send (heap s c))\<lparr>closed := True\<rparr>\<rparr>
               else (heap s c)\<lparr>Send := (Send (heap s c))\<lparr>buf := buf (Send (heap s c)) @ [jsonData]\<rparr>\<rparr>)
            else heap s c)"
    and k1: "\<forall>c. Clients s1 c =
           (if c \<in> set order \<and> Clients s c \<noteq> None \<and> (FormID (heap s c) = [] \<or> FormID (heap s c) = formID)
               \<and> full (Send (heap s c))
            then None else Clients s c)"
    by blast
  from range_deliver [OF o(1) o(2), of "\<lambda>cl. True" jsonData]
  obtain s2 where
    r2: "range_Clients (\<lambda>c s. send_or_drop jsonData c s) order s = Inr s2"
    and h2: "\<forall>c. heap s2 c =
           (if c \<in> set order \<and> Clients s c \<noteq> None then
              (if full (Send (heap s c))
               then (heap s c)\<lparr>Send := (Send (heap s c))\<lparr>closed := True\<rparr>\<rparr>
               else (heap s c)\<lparr>Send := (Send (heap s c))\<lparr>buf := buf (Send (heap s c)) @ [jsonData]\<rparr>\<rparr>)
            else heap s c)"
    and k2: "\<forall>c. Clients s2 c =
           (if c \<in> set order \<and> Clients s c \<noteq> None \<and> full (Send (heap s c))
            then None else Clients s c)"
    by auto
  have a: "BroadcastToForm js formID mt d order s = Inr s1"
    using r1 assms(3) by (simp add: BroadcastToForm_def)
  have b: "hub_Broadcast jsonData order s = Inr s2"
    using r2 by (simp add: hub_Broadcast_def)
  have c1: "if full (Send (heap s c))
                 then closed (Send (heap s1 c)) \<and> Clients s1 c = None
                 else buf (Send (heap s1 c)) = buf (Send (heap s c)) @ [jsonData] \<and>
                      \<not> closed (Send (heap s1 c)) \<and> Clients s1 c = Clients s c"
    if "Clients s c \<noteq> None \<and> (FormID (heap s c) = [] \<or> FormID (heap s c) = formID)" for c
    using that h1 [rule_format, of c] k1 [rule_format, of c] o(3) [of c] op [of c] by auto
  have c2: "if full (Send (heap s c))
                 then closed (Send (heap s2 c)) \<and> Clients s2 c = None
                 else buf (Send (heap s2 c)) = buf (Send (heap s c)) @ [jsonData] \<and>
                      \<not> closed (Send (heap s2 c)) \<and> Clients s2 c = Clients s c"
    if "Clients s c \<noteq> None" for c
    using that h2 [rule_format, of c] k2 [rule_format, of c] o(3) [of c] op [of c] by auto
  from a b c1 c2 show ?thesis by blast
qed

text \<open>
  Claim C2, witness: in the example hub client 11 (full) is closed and removed by either
  loop while clients 13 and 12 receive the event and stay registered.
\<close>

theorem broadcast_evicts_full_witness:
  "hub_inv example_hub \<and> range_order example_hub [10, 11, 12, 13] \<and>
   closed_after 11 (BroadcastToForm example_marshal ''A'' ''t'' JNull [10, 11, 12, 13] example_hub) = Some True \<and>
   registered_after 11 (BroadcastToForm example_marshal ''A'' ''t'' JNull [10, 11, 12, 13] example_hub) = Some False \<and>
   queue_after 13 (BroadcastToForm example_marshal ''A'' ''t'' JNull [10, 11, 12, 13] example_hub) = Some [''t|A''] \<and>
   registered_after 13 (BroadcastToForm example_marshal ''A'' ''t'' JNull [10, 11, 12, 13] example_hub) = Some True \<and>
   closed_after 11 (hub_Broadcast ''t|A'' [10, 11, 12, 13] example_hub) = Some True \<and>
   registered_after 11 (hub_Broadcast ''t|A'' [10, 11, 12, 13] example_hub) = Some False \<and>
   queue_after 12 (hub_Broadcast ''t|A'' [10, 11, 12, 13] example_hub) = Some [''t|A''] \<and>
   registered_after 12 (hub_Broadcast ''t|A'' [10, 11, 12, 13] example_hub) = Some True"
proof -
  have m: "example_marshal \<lparr>msg_Type = ''t'', msg_FormID = ''A'', msg_Data = JNull, msg_EventID = []\<rparr> = Some ''t|A''"
    by (simp add: example_marshal_def)
  from broadcast_evicts_full
         [of example_hub "[10, 11, 12, 13]" example_marshal "''t''" "''A''" JNull "''t|A''",
          OF example_hub_inv example_hub_order m]
  obtain s1 s2 where r1: "BroadcastToForm example_marshal ''A'' ''t'' JNull [10, 11, 12, 13] example_hub = Inr s1"
    and r2: "hub_Broadcast ''t|A'' [10, 11, 12, 13] example_hub = Inr s2"
    and q1: "\<And>c. Clients example_hub c \<noteq> None \<and> (FormID (heap example_hub c) = [] \<or> FormID (heap example_hub c) = ''A'') \<longrightarrow>
                (if full (Send (heap example_hub c))
                 then closed (Send (heap s1 c)) \<and> Clients s1 c = None
                 else buf (Send (heap s1 c)) = buf (Send (heap example_hub c)) @ [''t|A''] \<and>
                      \<not> closed (Send (heap s1 c)) \<and> Clients s1 c = Clients example_hub c)"
    and q2: "\<And>c. Clients example_hub c \<noteq> None \<longrightarrow>
                (if full (Send (heap example_hub c))
                 then closed (Send (heap s2 c)) \<and> Clients s2 c = None
                 else buf (Send (heap s2 c)) = buf (Send (heap example_hub c)) @ [''t|A''] \<and>
                      \<not> closed (Send (heap s2 c)) \<and> Clients s2 c = Clients example_hub c)"
    by blast
  have "closed (Send (heap s1 11))" "Clients s1 11 = None"
    "buf (Send (heap s1 13)) = [''t|A'']" "Clients s1 13 \<noteq> None"
    "closed (Send (heap s2 11))" "Clients s2 11 = None"
    "buf (Send (heap s2 12)) = [''t|A'']" "Clients s2 12 \<noteq> None"
    using q1 [of 11] q1 [of 13] q2 [of 11] q2 [of 12]
    by (simp_all add: example_hub_def example_heap_def make_chan_def full_def)
  then show ?thesis
    by (simp add: r1 r2 queue_after_def closed_after_def registered_after_def
        example_hub_inv example_hub_order)
qed

subsection \<open>Unregister\<close>

text \<open>
  Claim C6. The \<^verbatim>\<open>Unregister\<close> case of \<^verbatim>\<open>Hub.Run\<close> never panics in a state where registered
  queues are open; afterwards the client is not registered, its queue is closed if it was
  registered, the state is unchanged if it was not, a second unregister of the same client
  returns the same state, and no other client's registry entry or fields change.
\<close>

theorem hub_Unregister_idempotent:
  assumes "hub_inv s"
  shows "\<exists>s'. hub_Unregister c s = Inr s' \<and>
           Clients s' c = None \<and>
           (Clients s c \<noteq> None \<longrightarrow> closed (Send (heap s' c))) \<and>
           (Clients s c = None \<longrightarrow> s' = s) \<and>
           hub_Unregister c s' = Inr s' \<and>
           (\<forall>c'. c' \<noteq> c \<longrightarrow> Clients s' c' = Clients s c' \<and> heap s' c' = heap s c')"
proof (cases "Clients s c = None")
  case True
  then show ?thesis by (simp add: hub_Unregister_def)
next
  case False
  with assms have "\<not> closed (Send (heap s c))" by (simp add: hub_inv_def)
  with False show ?thesis
    by (auto simp: hub_Unregister_def close_chan_def Let_def)
qed

text \<open>
  Claim C6, witness: unregistering client 11 of the example hub, twice.
\<close>

theorem hub_Unregister_idempotent_witness:
  "hub_inv example_hub \<and>
   (\<exists>s'. hub_Unregister 11 example_hub = Inr s' \<and> hub_Unregister 11 s' = Inr s' \<and>
          Clients s' 11 = None \<and> closed (Send (heap s' 11)) \<and>
          Clients s' 13 = Clients example_hub 13 \<and> heap s' 13 = heap example_hub 13) \<and>
   Clients example_hub 11 = Some True \<and> Clients example_hub 13 = Some True"
proof -
  from hub_Unregister_idempotent [OF example_hub_inv, of 11]
  obtain s' where "hub_Unregister 11 example_hub = Inr s'" "hub_Unregister 11 s' = Inr s'"
    "Clients s' 11 = None" "Clients example_hub 11 \<noteq> None \<longrightarrow> closed (Send (heap s' 11))"
    "\<forall>c'. c' \<noteq> 11 \<longrightarrow> Clients s' c' = Clients example_hub c' \<and> heap s' c' = heap example_hub c'"
    by blast
  moreover have "Clients example_hub 11 = Some True" "Clients example_hub 13 = Some True"
    by (simp_all add: example_hub_def)
  ultimately show ?thesis using example_hub_inv by auto
qed

subsection \<open>Ping on a full queue\<close>

text \<open>
  Claim C10. A \<^verbatim>\<open>ping\<close> frame read while the client's queue is open and full leaves the whole
  state as it was: the pong is dropped, the queue is not closed and the client stays
  registered. More generally no frame handled by \<^verbatim>\<open>readPump\<close> changes the registry or closes
  a queue.
\<close>

theorem readPump_ping_full_drops_pong:
  "(msg_Type msg = ''ping'' \<and> \<not> closed (Send (heap s c)) \<and> full (Send (heap s c))
      \<longrightarrow> readPump_message js c msg s = Inr s) \<and>
   (\<forall>s'. readPump_message js c msg s = Inr s' \<longrightarrow>
      Clients s' = Clients s \<and> (\<forall>c'. closed (Send (heap s' c')) = closed (Send (heap s c'))))"
proof (intro conjI impI allI)
  assume "msg_Type msg = ''ping'' \<and> \<not> closed (Send (heap s c)) \<and> full (Send (heap s c))"
  then show "readPump_message js c msg s = Inr s"
    by (simp add: readPump_message_def try_send_def full_def split: option.splits)
next
  fix s' assume "readPump_message js c msg s = Inr s'"
  then show "Clients s' = Clients s"
    by (auto simp: readPump_message_def try_send_def split: option.splits if_splits jvalue.splits)
next
  fix s' c' assume "readPump_message js c msg s = Inr s'"
  then show "closed (Send (heap s' c')) = closed (Send (heap s c'))"
    by (auto simp: readPump_message_def try_send_def split: option.splits if_splits jvalue.splits)
qed

text \<open>
  Claim C10, witness: a ping from client 11 of the example hub, whose queue is full.
\<close>

theorem readPump_ping_full_drops_pong_witness:
  "msg_Type ping_frame = ''ping'' \<and> \<not> closed (Send (heap example_hub 11)) \<and>
   full (Send (heap example_hub 11)) \<and>
   readPump_message example_marshal 11 ping_frame example_hub = Inr example_hub"
proof -
  have "msg_Type ping_frame = ''ping'' \<and> \<not> closed (Send (heap example_hub 11)) \<and>
        full (Send (heap example_hub 11))"
    by (simp add: ping_frame_def example_hub_def example_heap_def full_def)
  with readPump_ping_full_drops_pong [of ping_frame example_hub 11 example_marshal]
  show ?thesis by blast
qed

subsection \<open>The serialization point\<close>

lemma example_to_form:
  "queue_after 10 (BroadcastToForm example_marshal ''A'' ''t'' JNull [10, 11, 12, 13] example_hub)
     = Some [''t|A'']"
  "queue_after 12 (BroadcastToForm example_marshal ''A'' ''t'' JNull [10, 11, 12, 13] example_hub)
     = Some []"
  "registered_after 11 (BroadcastToForm example_marshal ''A'' ''t'' JNull [10, 11, 12, 13] example_hub)
     = Some False"
  by (simp_all add: queue_after_def registered_after_def BroadcastToForm_def example_marshal_def
      example_hub_def example_heap_def send_or_drop_def try_send_def close_chan_def make_chan_def)

lemma example_Run_step:
  "queue_after 10 (Run_step (Register c) [10, 11, 12, 13] example_hub) = Some []"
  "queue_after 10 (Run_step (Unregister c) [10, 11, 12, 13] example_hub) = Some []"
  "queue_after 12 (Run_step (Broadcast m) [10, 11, 12, 13] example_hub) = Some [m]"
  by (simp_all add: queue_after_def Run_step_def hub_Register_def hub_Unregister_def
      hub_Broadcast_def example_hub_def example_heap_def send_or_drop_def try_send_def
      close_chan_def make_chan_def Let_def)

text \<open>
  Claim C9, at the example hub. \<^verbatim>\<open>BroadcastToForm\<close> is called by the goroutine that reports an
  event; it sends nothing on the hub's channels. The call itself removes client 11 from the
  registry and chooses the receivers (clients 10 and 13, not 12): a mutation of the registry
  and a fan-out decision that \<^verbatim>\<open>Hub.Run\<close> does not process, and that no request to \<^verbatim>\<open>Hub.Run\<close>
  produces. \<^verbatim>\<open>BroadcastGeneral\<close>, in contrast, is a \<^verbatim>\<open>Broadcast\<close> request to \<^verbatim>\<open>Hub.Run\<close>.
\<close>

theorem BroadcastToForm_bypasses_Run:
  "Clients example_hub 11 = Some True \<and>
   registered_after 11
     (BroadcastToForm example_marshal ''A'' ''t'' JNull [10, 11, 12, 13] example_hub) = Some False \<and>
   queue_after 10
     (BroadcastToForm example_marshal ''A'' ''t'' JNull [10, 11, 12, 13] example_hub) = Some [''t|A''] \<and>
   queue_after 12
     (BroadcastToForm example_marshal ''A'' ''t'' JNull [10, 11, 12, 13] example_hub) = Some [] \<and>
   (\<forall>req. Run_step req [10, 11, 12, 13] example_hub
            \<noteq> BroadcastToForm example_marshal ''A'' ''t'' JNull [10, 11, 12, 13] example_hub) \<and>
   BroadcastGeneral example_marshal ''t'' JNull [10, 11, 12, 13] example_hub
     = Run_step (Broadcast ''t|'') [10, 11, 12, 13] example_hub"
proof -
  let ?b = "BroadcastToForm example_marshal ''A'' ''t'' JNull [10, 11, 12, 13] example_hub"
  have "Run_step req [10, 11, 12, 13] example_hub \<noteq> ?b" for req
  proof
    assume eq: "Run_step req [10, 11, 12, 13] example_hub = ?b"
    show False
    proof (cases req)
      case (Register c)
      with eq example_Run_step(1) [of c] example_to_form(1) show False by simp
    next
      case (Unregister c)
      with eq example_Run_step(2) [of c] example_to_form(1) show False by simp
    next
      case (Broadcast m)
      with eq example_Run_step(3) [of m] example_to_form(2) show False by simp
    qed
  qed
  moreover have "Clients example_hub 11 = Some True" by (simp add: example_hub_def)
  moreover have "BroadcastGeneral example_marshal ''t'' JNull [10, 11, 12, 13] example_hub
     = Run_step (Broadcast ''t|'') [10, 11, 12, 13] example_hub"
    by (simp add: BroadcastGeneral_def Run_step_def example_marshal_def)
  ultimately show ?thesis using example_to_form by simp
qed

section \<open>Properties of the browser client\<close>

lemma ws_step_bound:
  "maxReconnectAttempts w = 5 \<Longrightarrow> 0 \<le> reconnectAttempts w \<Longrightarrow> reconnectAttempts w \<le> 5 \<Longrightarrow>
   maxReconnectAttempts (ws_step w e) = 5 \<and> 0 \<le> reconnectAttempts (ws_step w e)
   \<and> reconnectAttempts (ws_step w e) \<le> 5"
  by (cases e)
     (auto simp: connect_def disconnect_def onopen_def onclose_def onerror_def handleReconnect_def
       browser_sets_def emit_def Let_def)

lemma foldl_ws_step_bound:
  "maxReconnectAttempts w = 5 \<Longrightarrow> 0 \<le> reconnectAttempts w \<Longrightarrow> reconnectAttempts w \<le> 5 \<Longrightarrow>
   maxReconnectAttempts (foldl ws_step w evs) = 5 \<and> 0 \<le> reconnectAttempts (foldl ws_step w evs)
   \<and> reconnectAttempts (foldl ws_step w evs) \<le> 5"
proof (induction evs arbitrary: w)
  case Nil
  then show ?case by simp
next
  case (Cons e evs)
  from ws_step_bound [OF Cons.prems, of e] Cons.IH [of "ws_step w e"]
  show ?case by simp
qed

text \<open>
  Claim C8. After any sequence of events the attempt counter lies between 0 and
  \<^verbatim>\<open>maxReconnectAttempts\<close>, which stays 5. When the counter has reached the maximum,
  \<^verbatim>\<open>handleReconnect\<close> only emits \<^verbatim>\<open>max_reconnect_attempts_reached\<close>: a close event, whatever its
  code, schedules no reconnect timer and leaves the counter as it is. Every open event
  sets the counter to 0.
\<close>

theorem reconnect_bounded:
  "0 \<le> reconnectAttempts (ws_run evs) \<and>
   reconnectAttempts (ws_run evs) \<le> maxReconnectAttempts (ws_run evs) \<and>
   maxReconnectAttempts (ws_run evs) = 5 \<and>
   (reconnectAttempts (ws_run evs) = maxReconnectAttempts (ws_run evs) \<longrightarrow>
      handleReconnect (ws_run evs) = emit ''max_reconnect_attempts_reached'' (ws_run evs) \<and>
      reconnectTimers (ws_step (ws_run evs) (SocketClose current code)) = reconnectTimers (ws_run evs) \<and>
      reconnectAttempts (ws_step (ws_run evs) (SocketClose current code)) = reconnectAttempts (ws_run evs)) \<and>
   reconnectAttempts (ws_step (ws_run evs) (SocketOpen current)) = 0"
proof -
  have b: "maxReconnectAttempts (ws_run evs) = 5 \<and> 0 \<le> reconnectAttempts (ws_run evs)
     \<and> reconnectAttempts (ws_run evs) \<le> 5"
    unfolding ws_run_def by (rule foldl_ws_step_bound) (simp_all add: wsClient_def)
  have o: "reconnectAttempts (ws_step w (SocketOpen current)) = 0" for w
    by (simp add: onopen_def emit_def browser_sets_def)
  have c: "handleReconnect w = emit ''max_reconnect_attempts_reached'' w \<and>
      reconnectTimers (ws_step w (SocketClose current code)) = reconnectTimers w \<and>
      reconnectAttempts (ws_step w (SocketClose current code)) = reconnectAttempts w"
    if "reconnectAttempts w = maxReconnectAttempts w" for w
    using that by (simp add: onclose_def handleReconnect_def emit_def browser_sets_def Let_def)
  from b o c show ?thesis by simp
qed

text \<open>
  Claim C8, witness: after five abnormal closes the counter is 5 and no timer is pending;
  a sixth close schedules none, and an open resets the counter.
\<close>

theorem reconnect_bounded_witness:
  "reconnectAttempts (ws_run five_drops) = 5 \<and>
   reconnectAttempts (ws_run five_drops) = maxReconnectAttempts (ws_run five_drops) \<and>
   reconnectTimers (ws_run five_drops) = 0 \<and>
   reconnectTimers (ws_step (ws_run five_drops) (SocketClose True 1006)) = 0 \<and>
   reconnectAttempts (ws_step (ws_run five_drops) (SocketOpen True)) = 0"
proof -
  have a: "reconnectAttempts (ws_run five_drops) = 5" "maxReconnectAttempts (ws_run five_drops) = 5"
     "reconnectTimers (ws_run five_drops) = 0"
    by (simp_all add: ws_run_def five_drops_def wsClient_def onclose_def handleReconnect_def
        emit_def browser_sets_def connect_def Let_def numeral_eq_Suc)
  with reconnect_bounded [of five_drops True 1006] show ?thesis by simp
qed

section \<open>Properties of the rounding\<close>






lemma round_even_of_int [simp]: "round_even (of_int k) = k"
  by (simp add: round_even_def)













section \<open>Properties of the analytics\<close>





lemma completion_rate_empty:
  assumes "Find (\<lambda>r. form_id r = formID) db = []"
  shows "calculateCompletionMetrics db formID fields' = (Finite 0, Finite 0)"
  using assms by (simp add: calculateCompletionMetrics_def)









lemma no_responses:
  assumes "\<forall>r\<in>set db. form_id r \<noteq> formID"
  shows "Find (\<lambda>r. form_id r = formID) db = []"
    and "CountDocuments (\<lambda>r. form_id r = formID \<and> P r) db = 0"
    and "CountDocuments (\<lambda>r. form_id r = formID) db = 0"
    and "Find (answered formID fieldID) db = []"
    and "CountDocuments (answered formID fieldID) db = 0"
  using assms by (auto simp: Find_def CountDocuments_def answered_def filter_empty_conv)

lemma calculateEnhancedFieldAnalytics_empty:
  assumes "\<forall>r\<in>set db. form_id r \<noteq> formID"
  shows "calculateEnhancedFieldAnalytics db formID field 0 =
           Inr \<lparr>field_id = ID field, field_label = Label field, field_type = Type field,
                response_rate = Finite 0, skip_rate = Finite 100,
                unique_responses = 0, common_responses = [], average_rating = None\<rparr>"
  by (simp add: calculateEnhancedFieldAnalytics_def no_responses(4,5) [OF assms]
      group_count_def sort_count_desc_def Let_def)

lemma field_loop_empty:
  assumes "\<forall>r\<in>set db. form_id r \<noteq> formID"
  shows "field_loop db formID 0 fields' =
           Inr (map (\<lambda>field. \<lparr>field_id = ID field, field_label = Label field,
                                field_type = Type field,
                                response_rate = Finite 0, skip_rate = Finite 100,
                                unique_responses = 0, common_responses = [],
                                average_rating = None\<rparr>) fields')"
  by (induction fields') (simp_all add: calculateEnhancedFieldAnalytics_empty [OF assms])

text \<open>
  Claim C3, as the code has it. With no response for the form, \<^verbatim>\<open>calculateAnalytics\<close> returns
  without a panic: both totals are 0, the completion rate and the average completion time
  are 0, the seven trend entries count 0, and every field's entry has response rate 0, skip
  rate 100, no common responses and no average rating. All rates are finite: no division by
  zero has produced an infinity or a NaN.
\<close>

theorem calculateAnalytics_empty:
  assumes "CountDocuments (\<lambda>r. form_id r = formID) db = 0"
  shows "\<exists>a. calculateAnalytics loc now db formID fields' = Inr a \<and>
           TotalResponses a = 0 \<and> total_responses a = 0 \<and>
           completion_rate a = Finite 0 \<and> average_completion_time a = Finite 0 \<and>
           map count (response_trends a) = [0, 0, 0, 0, 0, 0, 0] \<and>
           map field_id (field_analytics a) = map ID fields' \<and>
           (\<forall>f\<in>set (field_analytics a).
              response_rate f = Finite 0 \<and> skip_rate f = Finite 100 \<and>
              common_responses f = [] \<and> average_rating f = None)"
proof -
  from assms have none: "\<forall>r\<in>set db. form_id r \<noteq> formID"
    by (simp add: CountDocuments_def filter_empty_conv)
  note e = no_responses [OF none]
  have m: "calculateCompletionMetrics db formID fields' = (Finite 0, Finite 0)"
    using e(1) by (rule completion_rate_empty)
  have t: "map count (calculateResponseTrends loc now db formID) = [0, 0, 0, 0, 0, 0, 0]"
    by (simp add: calculateResponseTrends_def Let_def e(2))
  show ?thesis
    by (simp add: calculateAnalytics_def Let_def e(2,3) field_loop_empty [OF none] m t comp_def)
qed

text \<open>
  Claim C3, witness: an empty collection and a form with one rating field.
\<close>

theorem calculateAnalytics_empty_witness:
  "CountDocuments (\<lambda>r. form_id r = ''form1'') [] = 0 \<and>
   (\<exists>a. calculateAnalytics UTC 0 [] ''form1'' [rating_field] = Inr a \<and>
        TotalResponses a = 0 \<and> completion_rate a = Finite 0 \<and>
        average_completion_time a = Finite 0 \<and>
        map count (response_trends a) = [0, 0, 0, 0, 0, 0, 0] \<and>
        map response_rate (field_analytics a) = [Finite 0] \<and>
        map skip_rate (field_analytics a) = [Finite 100])"
proof -
  have z: "CountDocuments (\<lambda>r. form_id r = ''form1'') [] = 0"
    by (simp add: CountDocuments_def)
  from calculateAnalytics_empty [OF z, of UTC 0 "[rating_field]"]
  obtain a where a: "calculateAnalytics UTC 0 [] ''form1'' [rating_field] = Inr a"
    "TotalResponses a = 0" "completion_rate a = Finite 0" "average_completion_time a = Finite 0"
    "map count (response_trends a) = [0, 0, 0, 0, 0, 0, 0]"
    "map field_id (field_analytics a) = map ID [rating_field]"
    "\<forall>f\<in>set (field_analytics a). response_rate f = Finite 0 \<and> skip_rate f = Finite 100 \<and>
              common_responses f = [] \<and> average_rating f = None"
    by auto
  from a(6) obtain f where f: "field_analytics a = [f]" by (cases "field_analytics a") auto
  with a(7) have "response_rate f = Finite 0" "skip_rate f = Finite 100" by simp_all
  with a f z show ?thesis by auto
qed

text \<open>
  Claim C3, counterexample to the claim as stated (skip rate defaulting to 0): with zero
  responses the skip rate of the field is 100.
\<close>

theorem skip_rate_empty_counterexample:
  "CountDocuments (\<lambda>r. form_id r = ''form1'') [] = 0 \<and>
   skip_rates (calculateAnalytics UTC 0 [] ''form1'' [rating_field]) = [Finite 100] \<and>
   Finite 100 \<noteq> Finite 0"
  by (simp add: skip_rates_def calculateAnalytics_def calculateEnhancedFieldAnalytics_def Let_def
      CountDocuments_def Find_def rating_field_def FieldTypeRating_def FieldTypeMultipleChoice_def
      FieldTypeCheckbox_def)







lemma merge_buckets:
  fixes a b c :: int
  assumes "a \<le> b" and "b \<le> c"
  shows "CountDocuments (\<lambda>r. P r \<and> a \<le> CreatedAt r \<and> CreatedAt r < b) db
       + CountDocuments (\<lambda>r. P r \<and> b \<le> CreatedAt r \<and> CreatedAt r < c) db
       = CountDocuments (\<lambda>r. P r \<and> a \<le> CreatedAt r \<and> CreatedAt r < c) db"
  using assms by (induction db) (auto simp: CountDocuments_def)

text \<open>
  Claim C4, as the code has it. The trend has seven entries; their dates are the local
  midnights of the calendar days six days ago, five days ago, and so on to today, in this
  order; each entry counts the form's responses created in the 24 hours from its date. When
  every day of the window has 24 hours, the dates ascend and the counts add up to the
  number of the form's responses created from the first midnight of the window up to, but
  not including, the midnight that ends today.
\<close>

theorem trend_buckets:
  "length (calculateResponseTrends loc now db formID) = 7 \<and>
   map date (calculateResponseTrends loc now db formID) =
     map (\<lambda>i. midnight loc (civil_day loc now - i)) [6, 5, 4, 3, 2, 1, 0] \<and>
   (\<forall>t\<in>set (calculateResponseTrends loc now db formID).
      count t = CountDocuments (\<lambda>r. form_id r = formID \<and> date t \<le> CreatedAt r
                                    \<and> CreatedAt r < date t + 24 * Hour) db) \<and>
   (days_are_24h loc now \<longrightarrow>
      sorted (map date (calculateResponseTrends loc now db formID)) \<and>
      sum_list (map count (calculateResponseTrends loc now db formID)) =
        CountDocuments (\<lambda>r. form_id r = formID
                             \<and> midnight loc (civil_day loc now - 6) \<le> CreatedAt r
                             \<and> CreatedAt r < midnight loc (civil_day loc now) + 24 * Hour) db)"
proof (intro conjI impI)
  show "length (calculateResponseTrends loc now db formID) = 7"
    by (simp add: calculateResponseTrends_def)
  show "map date (calculateResponseTrends loc now db formID) =
     map (\<lambda>i. midnight loc (civil_day loc now - i)) [6, 5, 4, 3, 2, 1, 0]"
    by (simp add: calculateResponseTrends_def Let_def)
  show "\<forall>t\<in>set (calculateResponseTrends loc now db formID).
      count t = CountDocuments (\<lambda>r. form_id r = formID \<and> date t \<le> CreatedAt r
                                    \<and> CreatedAt r < date t + 24 * Hour) db"
    by (simp add: calculateResponseTrends_def Let_def)
next
  assume d: "days_are_24h loc now"
  define D where "D = civil_day loc now"
  define s where "s = midnight loc (D - 6)"
  define h where "h = 24 * Hour"
  have h0: "0 \<le> h" by (simp add: h_def Hour_def)
  from d have m: "midnight loc D = midnight loc (D - 1) + h"
    "midnight loc (D - 1) = midnight loc (D - 2) + h"
    "midnight loc (D - 2) = midnight loc (D - 3) + h"
    "midnight loc (D - 3) = midnight loc (D - 4) + h"
    "midnight loc (D - 4) = midnight loc (D - 5) + h"
    "midnight loc (D - 5) = midnight loc (D - 6) + h"
    by (simp_all add: days_are_24h_def D_def h_def)
  have ms: "midnight loc (D - 5) = s + h" "midnight loc (D - 4) = s + 2 * h"
    "midnight loc (D - 3) = s + 3 * h" "midnight loc (D - 2) = s + 4 * h"
    "midnight loc (D - 1) = s + 5 * h" "midnight loc D = s + 6 * h"
    using m by (simp_all add: s_def)
  show "sorted (map date (calculateResponseTrends loc now db formID))"
    using h0 by (simp add: calculateResponseTrends_def Let_def ms flip: D_def s_def)
  let ?C = "\<lambda>a b. CountDocuments (\<lambda>r. form_id r = formID \<and> a \<le> CreatedAt r \<and> CreatedAt r < b) db"
  have e: "s + h + h = s + 2 * h" "s + 2 * h + h = s + 3 * h" "s + 3 * h + h = s + 4 * h"
    "s + 4 * h + h = s + 5 * h" "s + 5 * h + h = s + 6 * h" "s + 6 * h + h = s + 7 * h"
    by simp_all
  have "sum_list (map count (calculateResponseTrends loc now db formID)) =
        ?C s (s + h) + ?C (s + h) (s + h + h) + ?C (s + 2 * h) (s + 2 * h + h)
        + ?C (s + 3 * h) (s + 3 * h + h) + ?C (s + 4 * h) (s + 4 * h + h)
        + ?C (s + 5 * h) (s + 5 * h + h) + ?C (s + 6 * h) (s + 6 * h + h)"
    by (simp add: calculateResponseTrends_def Let_def ms flip: D_def s_def h_def)
  also have "\<dots> = ?C s (s + h) + ?C (s + h) (s + 2 * h) + ?C (s + 2 * h) (s + 3 * h)
        + ?C (s + 3 * h) (s + 4 * h) + ?C (s + 4 * h) (s + 5 * h) + ?C (s + 5 * h) (s + 6 * h)
        + ?C (s + 6 * h) (s + 7 * h)"
    by (simp only: e)
  also have "?C s (s + h) + ?C (s + h) (s + 2 * h) = ?C s (s + 2 * h)"
    using h0 by (intro merge_buckets) simp_all
  also have "?C s (s + 2 * h) + ?C (s + 2 * h) (s + 3 * h) = ?C s (s + 3 * h)"
    using h0 by (intro merge_buckets) simp_all
  also have "?C s (s + 3 * h) + ?C (s + 3 * h) (s + 4 * h) = ?C s (s + 4 * h)"
    using h0 by (intro merge_buckets) simp_all
  also have "?C s (s + 4 * h) + ?C (s + 4 * h) (s + 5 * h) = ?C s (s + 5 * h)"
    using h0 by (intro merge_buckets) simp_all
  also have "?C s (s + 5 * h) + ?C (s + 5 * h) (s + 6 * h) = ?C s (s + 6 * h)"
    using h0 by (intro merge_buckets) simp_all
  also have "?C s (s + 6 * h) + ?C (s + 6 * h) (s + 7 * h) = ?C s (s + 7 * h)"
    using h0 by (intro merge_buckets) simp_all
  finally show "sum_list (map count (calculateResponseTrends loc now db formID)) =
        CountDocuments (\<lambda>r. form_id r = formID
                             \<and> midnight loc (civil_day loc now - 6) \<le> CreatedAt r
                             \<and> CreatedAt r < midnight loc (civil_day loc now) + 24 * Hour) db"
    by (simp add: ms e flip: D_def s_def h_def)
qed

text \<open>
  Claim C4, witness: in UTC, at noon of day 20541, with responses one hour ago, three days ago
  and ten days ago.
\<close>

theorem trend_buckets_witness:
  "days_are_24h UTC (20541 * (24 * Hour) + 12 * Hour) \<and>
   map count (calculateResponseTrends UTC (20541 * (24 * Hour) + 12 * Hour) week_db ''form1'')
     = [0, 0, 0, 1, 0, 0, 1] \<and>
   sorted (map date (calculateResponseTrends UTC (20541 * (24 * Hour) + 12 * Hour) week_db ''form1'')) \<and>
   sum_list (map count (calculateResponseTrends UTC (20541 * (24 * Hour) + 12 * Hour) week_db ''form1''))
     = CountDocuments (\<lambda>r. form_id r = ''form1''
                             \<and> midnight UTC (civil_day UTC (20541 * (24 * Hour) + 12 * Hour) - 6) \<le> CreatedAt r
                             \<and> CreatedAt r < midnight UTC (civil_day UTC (20541 * (24 * Hour) + 12 * Hour)) + 24 * Hour)
          week_db"
proof -
  have d: "days_are_24h UTC (20541 * (24 * Hour) + 12 * Hour)"
    by (simp add: days_are_24h_def UTC_def Hour_def)
  have c: "map count (calculateResponseTrends UTC (20541 * (24 * Hour) + 12 * Hour) week_db ''form1'')
     = [0, 0, 0, 1, 0, 0, 1]"
    by (simp add: calculateResponseTrends_def Let_def UTC_def Hour_def week_db_def rated_def
        CountDocuments_def)
  from trend_buckets [of UTC "20541 * (24 * Hour) + 12 * Hour" week_db "''form1''"] d c
  show ?thesis by blast
qed

text \<open>
  Claim C4, counterexample to the claim as stated (the counts sum to the number of responses
  in the window): in Berlin at noon of 30 March 2026, a single response created at 00:30
  that morning lies within 24 hours of the midnight of 29 March, a day of 23 hours, and within
  24 hours of the midnight of 30 March. It is counted in both entries: the counts sum to 2.
\<close>

theorem trend_sum_dst_counterexample:
  "sum_list (map count
     (calculateResponseTrends Berlin_2026 (20542 * (24 * Hour) + 10 * Hour)
        [rated 5 (20542 * (24 * Hour) - Hour - Hour div 2)] ''form1'')) = 2 \<and>
   CountDocuments (\<lambda>r. form_id r = ''form1'') [rated 5 (20542 * (24 * Hour) - Hour - Hour div 2)] = 1"
  by (simp add: calculateResponseTrends_def Let_def Berlin_2026_def Hour_def rated_def
      CountDocuments_def)

end
